theory Spec2Isabelle
  imports Main "HOL-Library.Word" "HOL-Library.AList"
begin

section \<open>Dispatch keys (c10/core/DispatchKey.h)\<close>

text \<open>
  \<^verbatim>\<open>enum class BackendComponent : uint8_t\<close> and \<^verbatim>\<open>enum class DispatchKey : uint16_t\<close>
  are modelled by their underlying machine integers; each enumerator is an abbreviation
  of its numeric value, in the order of the header. Enumerators whose C++ name starts
  with an underscore carry the prefix \<open>x\<close>.
\<close>

type_synonym BackendComponent = "8 word"
type_synonym DispatchKey = "16 word"

abbreviation InvalidBit :: BackendComponent where "InvalidBit \<equiv> 0"
abbreviation CPUBit :: BackendComponent where "CPUBit \<equiv> 1"
abbreviation CUDABit :: BackendComponent where "CUDABit \<equiv> 2"
abbreviation HIPBit :: BackendComponent where "HIPBit \<equiv> 3"
abbreviation XLABit :: BackendComponent where "XLABit \<equiv> 4"
abbreviation MPSBit :: BackendComponent where "MPSBit \<equiv> 5"
abbreviation IPUBit :: BackendComponent where "IPUBit \<equiv> 6"
abbreviation XPUBit :: BackendComponent where "XPUBit \<equiv> 7"
abbreviation HPUBit :: BackendComponent where "HPUBit \<equiv> 8"
abbreviation VEBit :: BackendComponent where "VEBit \<equiv> 9"
abbreviation LazyBit :: BackendComponent where "LazyBit \<equiv> 10"
abbreviation MetaBit :: BackendComponent where "MetaBit \<equiv> 11"
abbreviation PrivateUse1Bit :: BackendComponent where "PrivateUse1Bit \<equiv> 12"
abbreviation PrivateUse2Bit :: BackendComponent where "PrivateUse2Bit \<equiv> 13"
abbreviation PrivateUse3Bit :: BackendComponent where "PrivateUse3Bit \<equiv> 14"
abbreviation EndOfBackendKeys :: BackendComponent where "EndOfBackendKeys \<equiv> 14"

abbreviation Undefined :: DispatchKey where "Undefined \<equiv> 0"
abbreviation CatchAll :: DispatchKey where "CatchAll \<equiv> 0"
abbreviation Dense :: DispatchKey where "Dense \<equiv> 1"
abbreviation FPGA :: DispatchKey where "FPGA \<equiv> 2"
abbreviation ORT :: DispatchKey where "ORT \<equiv> 3"
abbreviation Vulkan :: DispatchKey where "Vulkan \<equiv> 4"
abbreviation Metal :: DispatchKey where "Metal \<equiv> 5"
abbreviation Quantized :: DispatchKey where "Quantized \<equiv> 6"
abbreviation CustomRNGKeyId :: DispatchKey where "CustomRNGKeyId \<equiv> 7"
abbreviation MkldnnCPU :: DispatchKey where "MkldnnCPU \<equiv> 8"
abbreviation Sparse :: DispatchKey where "Sparse \<equiv> 9"
abbreviation SparseCsrCPU :: DispatchKey where "SparseCsrCPU \<equiv> 10"
abbreviation SparseCsrCUDA :: DispatchKey where "SparseCsrCUDA \<equiv> 11"
abbreviation EndOfNonCustomizableBackends :: DispatchKey where "EndOfNonCustomizableBackends \<equiv> 11"
abbreviation NestedTensor :: DispatchKey where "NestedTensor \<equiv> 12"
abbreviation BackendSelect :: DispatchKey where "BackendSelect \<equiv> 13"
abbreviation Python :: DispatchKey where "Python \<equiv> 14"
abbreviation Fake :: DispatchKey where "Fake \<equiv> 15"
abbreviation FuncTorchDynamicLayerBackMode :: DispatchKey where "FuncTorchDynamicLayerBackMode \<equiv> 16"
abbreviation Functionalize :: DispatchKey where "Functionalize \<equiv> 17"
abbreviation Named :: DispatchKey where "Named \<equiv> 18"
abbreviation Conjugate :: DispatchKey where "Conjugate \<equiv> 19"
abbreviation Negative :: DispatchKey where "Negative \<equiv> 20"
abbreviation ZeroTensor :: DispatchKey where "ZeroTensor \<equiv> 21"
abbreviation ADInplaceOrView :: DispatchKey where "ADInplaceOrView \<equiv> 22"
abbreviation AutogradOther :: DispatchKey where "AutogradOther \<equiv> 23"
abbreviation AutogradFunctionality :: DispatchKey where "AutogradFunctionality \<equiv> 24"
abbreviation AutogradNestedTensor :: DispatchKey where "AutogradNestedTensor \<equiv> 25"
abbreviation Tracer :: DispatchKey where "Tracer \<equiv> 26"
abbreviation AutocastCPU :: DispatchKey where "AutocastCPU \<equiv> 27"
abbreviation AutocastXPU :: DispatchKey where "AutocastXPU \<equiv> 28"
abbreviation AutocastCUDA :: DispatchKey where "AutocastCUDA \<equiv> 29"
abbreviation FuncTorchBatched :: DispatchKey where "FuncTorchBatched \<equiv> 30"
abbreviation FuncTorchVmapMode :: DispatchKey where "FuncTorchVmapMode \<equiv> 31"
abbreviation Batched :: DispatchKey where "Batched \<equiv> 32"
abbreviation VmapMode :: DispatchKey where "VmapMode \<equiv> 33"
abbreviation FuncTorchGradWrapper :: DispatchKey where "FuncTorchGradWrapper \<equiv> 34"
abbreviation DeferredInit :: DispatchKey where "DeferredInit \<equiv> 35"
abbreviation PythonTLSSnapshot :: DispatchKey where "PythonTLSSnapshot \<equiv> 36"
abbreviation FuncTorchDynamicLayerFrontMode :: DispatchKey where "FuncTorchDynamicLayerFrontMode \<equiv> 37"
abbreviation TESTING_ONLY_GenericWrapper :: DispatchKey where "TESTING_ONLY_GenericWrapper \<equiv> 38"
abbreviation TESTING_ONLY_GenericMode :: DispatchKey where "TESTING_ONLY_GenericMode \<equiv> 39"
abbreviation EndOfFunctionalityKeys :: DispatchKey where "EndOfFunctionalityKeys \<equiv> 40"
abbreviation StartOfDenseBackends :: DispatchKey where "StartOfDenseBackends \<equiv> 41"
abbreviation CPU :: DispatchKey where "CPU \<equiv> 42"
abbreviation HIP :: DispatchKey where "HIP \<equiv> 44"
abbreviation XLA :: DispatchKey where "XLA \<equiv> 45"
abbreviation MPS :: DispatchKey where "MPS \<equiv> 46"
abbreviation IPU :: DispatchKey where "IPU \<equiv> 47"
abbreviation XPU :: DispatchKey where "XPU \<equiv> 48"
abbreviation HPU :: DispatchKey where "HPU \<equiv> 49"
abbreviation VE :: DispatchKey where "VE \<equiv> 50"
abbreviation Lazy :: DispatchKey where "Lazy \<equiv> 51"
abbreviation Meta :: DispatchKey where "Meta \<equiv> 52"
abbreviation PrivateUse1 :: DispatchKey where "PrivateUse1 \<equiv> 53"
abbreviation PrivateUse2 :: DispatchKey where "PrivateUse2 \<equiv> 54"
abbreviation PrivateUse3 :: DispatchKey where "PrivateUse3 \<equiv> 55"
abbreviation EndOfDenseBackends :: DispatchKey where "EndOfDenseBackends \<equiv> 55"
abbreviation StartOfQuantizedBackends :: DispatchKey where "StartOfQuantizedBackends \<equiv> 56"
abbreviation QuantizedCPU :: DispatchKey where "QuantizedCPU \<equiv> 57"
abbreviation QuantizedCUDA :: DispatchKey where "QuantizedCUDA \<equiv> 58"
abbreviation x_QuantizedHIP :: DispatchKey where "x_QuantizedHIP \<equiv> 59"
abbreviation x_QuantizedXLA :: DispatchKey where "x_QuantizedXLA \<equiv> 60"
abbreviation x_QuantizedMPS :: DispatchKey where "x_QuantizedMPS \<equiv> 61"
abbreviation x_QuantizedIPU :: DispatchKey where "x_QuantizedIPU \<equiv> 62"
abbreviation QuantizedXPU :: DispatchKey where "QuantizedXPU \<equiv> 63"
abbreviation x_QuantizedHPU :: DispatchKey where "x_QuantizedHPU \<equiv> 64"
abbreviation x_QuantizedVE :: DispatchKey where "x_QuantizedVE \<equiv> 65"
abbreviation x_QuantizedLazy :: DispatchKey where "x_QuantizedLazy \<equiv> 66"
abbreviation x_QuantizedMeta :: DispatchKey where "x_QuantizedMeta \<equiv> 67"
abbreviation x_QuantizedPrivateUse1 :: DispatchKey where "x_QuantizedPrivateUse1 \<equiv> 68"
abbreviation x_QuantizedPrivateUse2 :: DispatchKey where "x_QuantizedPrivateUse2 \<equiv> 69"
abbreviation x_QuantizedPrivateUse3 :: DispatchKey where "x_QuantizedPrivateUse3 \<equiv> 70"
abbreviation EndOfQuantizedBackends :: DispatchKey where "EndOfQuantizedBackends \<equiv> 70"
abbreviation StartOfSparseBackends :: DispatchKey where "StartOfSparseBackends \<equiv> 71"
abbreviation SparseCPU :: DispatchKey where "SparseCPU \<equiv> 72"
abbreviation SparseCUDA :: DispatchKey where "SparseCUDA \<equiv> 73"
abbreviation SparseHIP :: DispatchKey where "SparseHIP \<equiv> 74"
abbreviation x_SparseXLA :: DispatchKey where "x_SparseXLA \<equiv> 75"
abbreviation x_SparseMPS :: DispatchKey where "x_SparseMPS \<equiv> 76"
abbreviation x_SparseIPU :: DispatchKey where "x_SparseIPU \<equiv> 77"
abbreviation SparseXPU :: DispatchKey where "SparseXPU \<equiv> 78"
abbreviation x_SparseHPU :: DispatchKey where "x_SparseHPU \<equiv> 79"
abbreviation SparseVE :: DispatchKey where "SparseVE \<equiv> 80"
abbreviation x_SparseLazy :: DispatchKey where "x_SparseLazy \<equiv> 81"
abbreviation x_SparseMeta :: DispatchKey where "x_SparseMeta \<equiv> 82"
abbreviation x_SparsePrivateUse1 :: DispatchKey where "x_SparsePrivateUse1 \<equiv> 83"
abbreviation x_SparsePrivateUse2 :: DispatchKey where "x_SparsePrivateUse2 \<equiv> 84"
abbreviation x_SparsePrivateUse3 :: DispatchKey where "x_SparsePrivateUse3 \<equiv> 85"
abbreviation EndOfSparseBackends :: DispatchKey where "EndOfSparseBackends \<equiv> 85"
abbreviation StartOfNestedTensorBackends :: DispatchKey where "StartOfNestedTensorBackends \<equiv> 86"
abbreviation NestedTensorCPU :: DispatchKey where "NestedTensorCPU \<equiv> 87"
abbreviation NestedTensorCUDA :: DispatchKey where "NestedTensorCUDA \<equiv> 88"
abbreviation x_NestedTensorHIP :: DispatchKey where "x_NestedTensorHIP \<equiv> 89"
abbreviation x_NestedTensorXLA :: DispatchKey where "x_NestedTensorXLA \<equiv> 90"
abbreviation x_NestedTensorMPS :: DispatchKey where "x_NestedTensorMPS \<equiv> 91"
abbreviation x_NestedTensorIPU :: DispatchKey where "x_NestedTensorIPU \<equiv> 92"
abbreviation x_NestedTensorXPU :: DispatchKey where "x_NestedTensorXPU \<equiv> 93"
abbreviation x_NestedTensorHPU :: DispatchKey where "x_NestedTensorHPU \<equiv> 94"
abbreviation x_NestedTensorVE :: DispatchKey where "x_NestedTensorVE \<equiv> 95"
abbreviation x_NestedTensorLazy :: DispatchKey where "x_NestedTensorLazy \<equiv> 96"
abbreviation x_NestedTensorMeta :: DispatchKey where "x_NestedTensorMeta \<equiv> 97"
abbreviation x_NestedTensorPrivateUse1 :: DispatchKey where "x_NestedTensorPrivateUse1 \<equiv> 98"
abbreviation x_NestedTensorPrivateUse2 :: DispatchKey where "x_NestedTensorPrivateUse2 \<equiv> 99"
abbreviation x_NestedTensorPrivateUse3 :: DispatchKey where "x_NestedTensorPrivateUse3 \<equiv> 100"
abbreviation EndOfNestedTensorBackends :: DispatchKey where "EndOfNestedTensorBackends \<equiv> 100"
abbreviation StartOfAutogradBackends :: DispatchKey where "StartOfAutogradBackends \<equiv> 101"
abbreviation AutogradCPU :: DispatchKey where "AutogradCPU \<equiv> 102"
abbreviation AutogradCUDA :: DispatchKey where "AutogradCUDA \<equiv> 103"
abbreviation x_AutogradHIP :: DispatchKey where "x_AutogradHIP \<equiv> 104"
abbreviation AutogradXLA :: DispatchKey where "AutogradXLA \<equiv> 105"
abbreviation AutogradMPS :: DispatchKey where "AutogradMPS \<equiv> 106"
abbreviation AutogradIPU :: DispatchKey where "AutogradIPU \<equiv> 107"
abbreviation AutogradXPU :: DispatchKey where "AutogradXPU \<equiv> 108"
abbreviation AutogradHPU :: DispatchKey where "AutogradHPU \<equiv> 109"
abbreviation x_AutogradVE :: DispatchKey where "x_AutogradVE \<equiv> 110"
abbreviation AutogradLazy :: DispatchKey where "AutogradLazy \<equiv> 111"
abbreviation AutogradMeta :: DispatchKey where "AutogradMeta \<equiv> 112"
abbreviation AutogradPrivateUse1 :: DispatchKey where "AutogradPrivateUse1 \<equiv> 113"
abbreviation AutogradPrivateUse2 :: DispatchKey where "AutogradPrivateUse2 \<equiv> 114"
abbreviation AutogradPrivateUse3 :: DispatchKey where "AutogradPrivateUse3 \<equiv> 115"
abbreviation EndOfAutogradBackends :: DispatchKey where "EndOfAutogradBackends \<equiv> 115"
abbreviation EndOfRuntimeBackendKeys :: DispatchKey where "EndOfRuntimeBackendKeys \<equiv> 115"
abbreviation Autograd :: DispatchKey where "Autograd \<equiv> 116"
abbreviation CompositeImplicitAutograd :: DispatchKey where "CompositeImplicitAutograd \<equiv> 117"
abbreviation CompositeExplicitAutograd :: DispatchKey where "CompositeExplicitAutograd \<equiv> 118"
abbreviation CompositeExplicitAutogradNonFunctional :: DispatchKey where "CompositeExplicitAutogradNonFunctional \<equiv> 119"
abbreviation StartOfAliasKeys :: DispatchKey where "StartOfAliasKeys \<equiv> 116"
abbreviation EndOfAliasKeys :: DispatchKey where "EndOfAliasKeys \<equiv> 119"
abbreviation CPUTensorId :: DispatchKey where "CPUTensorId \<equiv> 42"
abbreviation CUDATensorId :: DispatchKey where "CUDATensorId \<equiv> 43"
abbreviation DefaultBackend :: DispatchKey where "DefaultBackend \<equiv> 118"
abbreviation PrivateUse1_PreAutograd :: DispatchKey where "PrivateUse1_PreAutograd \<equiv> 113"
abbreviation PrivateUse2_PreAutograd :: DispatchKey where "PrivateUse2_PreAutograd \<equiv> 114"
abbreviation PrivateUse3_PreAutograd :: DispatchKey where "PrivateUse3_PreAutograd \<equiv> 115"
abbreviation Autocast :: DispatchKey where "Autocast \<equiv> 29"

definition isAliasDispatchKey :: "DispatchKey \<Rightarrow> bool" where
  "isAliasDispatchKey k \<longleftrightarrow> StartOfAliasKeys \<le> k \<and> k \<le> EndOfAliasKeys"

definition isPerBackendFunctionalityKey :: "DispatchKey \<Rightarrow> bool" where
  "isPerBackendFunctionalityKey k =
     (if k = Dense \<or> k = Quantized \<or> k = Sparse \<or> k = AutogradFunctionality \<or> k = NestedTensor
      then True else False)"

text \<open>
  \<^verbatim>\<open>static_cast<uint8_t>(k)\<close> truncates the 16-bit key to 8 bits; the subtraction
  and the addition are done on the promoted \<^verbatim>\<open>int\<close> values and the result is cast back
  to the enum's underlying type.
\<close>

definition u8 :: "DispatchKey \<Rightarrow> 8 word" where
  "u8 k = ucast k"

definition toBackendComponent :: "DispatchKey \<Rightarrow> BackendComponent" where
  "toBackendComponent k =
     (if StartOfDenseBackends \<le> k \<and> k \<le> EndOfDenseBackends
        then word_of_int (uint (u8 k) - uint (u8 StartOfDenseBackends))
      else if StartOfQuantizedBackends \<le> k \<and> k \<le> EndOfQuantizedBackends
        then word_of_int (uint (u8 k) - uint (u8 StartOfQuantizedBackends))
      else if StartOfSparseBackends \<le> k \<and> k \<le> EndOfSparseBackends
        then word_of_int (uint (u8 k) - uint (u8 StartOfSparseBackends))
      else if StartOfNestedTensorBackends \<le> k \<and> k \<le> EndOfNestedTensorBackends
        then word_of_int (uint (u8 k) - uint (u8 StartOfNestedTensorBackends))
      else if StartOfAutogradBackends \<le> k \<and> k \<le> EndOfAutogradBackends
        then word_of_int (uint (u8 k) - uint (u8 StartOfAutogradBackends))
      else InvalidBit)"

definition toFunctionalityKey :: "DispatchKey \<Rightarrow> DispatchKey" where
  "toFunctionalityKey k =
     (if k \<le> EndOfFunctionalityKeys then k
      else if k \<le> EndOfDenseBackends then Dense
      else if k \<le> EndOfQuantizedBackends then Quantized
      else if k \<le> EndOfSparseBackends then Sparse
      else if k \<le> EndOfNestedTensorBackends then NestedTensor
      else if k \<le> EndOfAutogradBackends then AutogradFunctionality
      else Undefined)"

definition toRuntimePerBackendFunctionalityKey :: "DispatchKey \<Rightarrow> BackendComponent \<Rightarrow> DispatchKey" where
  "toRuntimePerBackendFunctionalityKey functionality_k backend_k =
     (if functionality_k = Dense
        then word_of_int (uint (u8 StartOfDenseBackends) + uint backend_k)
      else if functionality_k = Sparse
        then word_of_int (uint (u8 StartOfSparseBackends) + uint backend_k)
      else if functionality_k = Quantized
        then word_of_int (uint (u8 StartOfQuantizedBackends) + uint backend_k)
      else if functionality_k = NestedTensor
        then word_of_int (uint (u8 StartOfNestedTensorBackends) + uint backend_k)
      else if functionality_k = AutogradFunctionality
        then word_of_int (uint (u8 StartOfAutogradBackends) + uint backend_k)
      else Undefined)"


section \<open>Kernel handles (ATen/core/boxing/KernelFunction.h)\<close>

text \<open>
  Naming: a C++ member or function whose name ends with an underscore (\<^verbatim>\<open>kernels_\<close>)
  is written with a prime after the underscore, since a name cannot end with an underscore.
\<close>

text \<open>
  A boxed kernel function pointer is either one of the three functions declared in the
  header or some other function, identified by its address.
\<close>

datatype InternalBoxedKernelFunction =
    fallthrough_kernel
  | ambiguous_autogradother_kernel
  | named_not_supported_kernel
  | boxed_function nat

text \<open>The three private members of \<^verbatim>\<open>class KernelFunction\<close>; \<open>None\<close> is the null pointer.\<close>

record KernelFunction =
  functor_' :: "nat option"
  boxed_kernel_func_' :: "InternalBoxedKernelFunction option"
  unboxed_kernel_func_' :: "nat option"

text \<open>\<^verbatim>\<open>KernelFunction()\<close>: the default-constructed handle holds no function at all.\<close>

definition KernelFunction_default :: KernelFunction where
  "KernelFunction_default =
     \<lparr>functor_' = None, boxed_kernel_func_' = None, unboxed_kernel_func_' = None\<rparr>"

text \<open>
  Modelled from the spec: the body of \<^verbatim>\<open>isValid\<close> (KernelFunction_impl.h) is missing.
  "At least one of the two invoke forms must be present for the handle to be valid."
\<close>

definition isValid :: "KernelFunction \<Rightarrow> bool" where
  "isValid k \<longleftrightarrow> boxed_kernel_func_' k \<noteq> None \<or> unboxed_kernel_func_' k \<noteq> None"

text \<open>
  Modelled from the spec: the body of \<^verbatim>\<open>isFallthrough\<close> (KernelFunction_impl.h) is
  missing. "True if this handle was constructed via the reserved fallthrough marker."
\<close>

definition isFallthrough :: "KernelFunction \<Rightarrow> bool" where
  "isFallthrough k \<longleftrightarrow> boxed_kernel_func_' k = Some fallthrough_kernel"

text \<open>
  Modelled from the spec: the body of \<^verbatim>\<open>makeAmbiguousAutogradOther\<close>
  (KernelFunction_impl.h) is missing. The "distinguished ambiguous marker kernel": the boxed
  handle of \<^verbatim>\<open>ambiguous_autogradother_kernel\<close>, without functor and unboxed function.
\<close>

definition makeAmbiguousAutogradOther :: KernelFunction where
  "makeAmbiguousAutogradOther =
     \<lparr>functor_' = None, boxed_kernel_func_' = Some ambiguous_autogradother_kernel,
      unboxed_kernel_func_' = None\<rparr>"

text \<open>
  Modelled from the spec: the body of \<^verbatim>\<open>_equalsBoxedAndUnboxed\<close> (KernelFunction_impl.h)
  is missing. The comparison of the consistency check: the same boxed and the same unboxed
  function.
\<close>

definition equalsBoxedAndUnboxed :: "KernelFunction \<Rightarrow> KernelFunction \<Rightarrow> bool" where
  "equalsBoxedAndUnboxed a b \<longleftrightarrow>
     boxed_kernel_func_' a = boxed_kernel_func_' b \<and> unboxed_kernel_func_' a = unboxed_kernel_func_' b"

section \<open>The operator entry (ATen/core/dispatch/OperatorEntry.cpp)\<close>

subsection \<open>Data\<close>

text \<open>
  A function schema is represented by its operator name and its text, a C++ signature by
  the identity of its type; the entry observes the operator name, the outcome of
  \<^verbatim>\<open>findSchemaDifferences\<close> and the equality of signatures only.
\<close>

record FunctionSchema =
  operator_name :: string
  schema_text :: string

type_synonym CppSignature = nat

record AnnotatedKernel =
  kernel :: KernelFunction
  inferred_function_schema :: "FunctionSchema option"
  debug :: string

record AnnotatedSchema =
  schema :: FunctionSchema
  schema_debug :: string

record CppSignatureWithDebug =
  signature :: CppSignature
  signature_debug :: string
  dispatch_key :: "DispatchKey option"

text \<open>
  \<^verbatim>\<open>kernels_\<close> maps a dispatch key to a \<^verbatim>\<open>std::list\<close> of annotated kernels. The list
  nodes keep their identity while other nodes are inserted or erased (an iterator is a
  pointer to a node), so every element carries the identity of its node. The map is an
  association list with one entry per key; the order of the entries stands for the
  unspecified iteration order of the hash map.
\<close>

type_synonym AnnotatedKernelContainerIterator = nat
type_synonym AnnotatedKernelContainer = "(AnnotatedKernelContainerIterator \<times> AnnotatedKernel) list"

text \<open>
  \<^verbatim>\<open>dispatchTable_\<close> is an array of kernel functions indexed by the dispatch table index
  of a runtime key. \<^verbatim>\<open>dispatchKeyExtractor_\<close>, \<^verbatim>\<open>tags_\<close> and \<^verbatim>\<open>is_observed_\<close> are
  left out: their classes are not among the sources and no function below reads them.
\<close>

record OperatorEntry =
  name_' :: string
  schema_' :: "AnnotatedSchema option"
  dispatchTable_' :: "int \<Rightarrow> KernelFunction"
  kernels_' :: "(DispatchKey \<times> AnnotatedKernelContainer) list"
  cpp_signature_' :: "CppSignatureWithDebug option"

text \<open>The part of \<^verbatim>\<open>c10::Dispatcher\<close> that the entry reads: the backend fallback kernels.\<close>

record Dispatcher =
  backendFallbackKernels_' :: "int \<Rightarrow> AnnotatedKernel"

text \<open>
  A \<^verbatim>\<open>DispatchKeySet\<close> is used by the entry in two ways only: \<^verbatim>\<open>ks.has(k)\<close> and
  iteration over its runtime keys. The class (DispatchKeySet.h) is not among the sources,
  so a key set is represented by these two observations.
\<close>

record DispatchKeySet =
  has :: "DispatchKey \<Rightarrow> bool"
  runtime_keys :: "DispatchKey list"

text \<open>
  The functions and constants that OperatorEntry.cpp calls and whose definitions are not
  among the sources (DispatchKeySet.h, DispatchKey.cpp, function_schema.h). The entry's
  functions take them as a parameter \<open>X\<close>; \<open>FULL\<close> is \<^verbatim>\<open>DispatchKeySet(DispatchKeySet::FULL)\<close>.
\<close>

record Externals =
  isIncludedInAlias :: "DispatchKey \<Rightarrow> DispatchKey \<Rightarrow> bool"
  getRuntimeDispatchKeySet :: "DispatchKey \<Rightarrow> DispatchKeySet"
  getBackendKeySetFromAutograd :: "DispatchKey \<Rightarrow> DispatchKeySet"
  autogradother_backends :: DispatchKeySet
  isBackendDispatchKey :: "DispatchKey \<Rightarrow> bool"
  getAutogradKeyFromBackend :: "BackendComponent \<Rightarrow> DispatchKey"
  getDispatchTableIndexForDispatchKey :: "DispatchKey \<Rightarrow> int"
  FULL :: DispatchKeySet
  findSchemaDifferences :: "FunctionSchema \<Rightarrow> FunctionSchema \<Rightarrow> string option"

text \<open>
  Failures: \<^verbatim>\<open>TORCH_INTERNAL_ASSERT\<close>, the two \<^verbatim>\<open>TORCH_CHECK\<close>s (schema and signature
  mismatch), and the erasure of an iterator that does not belong to the list (undefined
  behaviour in C++, a failure in the model).
\<close>

datatype error = InternalAssert | SchemaMismatch | SignatureMismatch | InvalidIterator

definition bind_e :: "error + 'a \<Rightarrow> ('a \<Rightarrow> error + 'b) \<Rightarrow> error + 'b" where
  "bind_e m f = (case m of Inl err \<Rightarrow> Inl err | Inr x \<Rightarrow> f x)"

subsection \<open>Marker kernels\<close>

definition missingKernel :: AnnotatedKernel where
  "missingKernel =
     \<lparr>kernel = KernelFunction_default, inferred_function_schema = None, debug = ''''\<rparr>"

definition ambiguousAutogradOtherKernel :: AnnotatedKernel where
  "ambiguousAutogradOtherKernel =
     \<lparr>kernel = makeAmbiguousAutogradOther, inferred_function_schema = None,
      debug = ''ambiguous_autogradother''\<rparr>"

subsection \<open>Queries over direct registrations\<close>

definition hasKernelForAnyDispatchKey :: "OperatorEntry \<Rightarrow> DispatchKeySet \<Rightarrow> error + bool" where
  "hasKernelForAnyDispatchKey e ks =
     (if map_of (kernels_' e) Undefined \<noteq> None then Inl InternalAssert
      else Inr (list_ex (\<lambda>kv. \<not> isAliasDispatchKey (fst kv) \<and> has ks (fst kv)) (kernels_' e)))"

definition hasKernelForDispatchKey :: "OperatorEntry \<Rightarrow> DispatchKey \<Rightarrow> error + bool" where
  "hasKernelForDispatchKey e k =
     (if map_of (kernels_' e) Undefined \<noteq> None then Inl InternalAssert
      else Inr (list_ex (\<lambda>kv. k = fst kv) (kernels_' e)))"

definition getKernelForDispatchKey :: "OperatorEntry \<Rightarrow> DispatchKey \<Rightarrow> error + AnnotatedKernel option" where
  "getKernelForDispatchKey e k =
     (case map_of (kernels_' e) k of
        None \<Rightarrow> Inr None
      | Some xs \<Rightarrow>
          (case xs of
             [] \<Rightarrow> Inl InternalAssert
           | x # _ \<Rightarrow> if \<not> isValid (kernel (snd x)) then Inl InternalAssert else Inr (Some (snd x))))"

subsection \<open>The dispatch table computation\<close>

text \<open>
  \<^verbatim>\<open>computeDispatchTableEntryWithDebug\<close>, cut at the numbered steps of its body: each
  definition is the function from that step to its end. The result is the chosen annotated
  kernel with its provenance string.
\<close>

definition compute_3 :: "Externals \<Rightarrow> Dispatcher \<Rightarrow> DispatchKey \<Rightarrow> AnnotatedKernel \<times> string" where
  "compute_3 X dispatcher k =
     (let dispatch_ix = getDispatchTableIndexForDispatchKey X k in
      if dispatch_ix < 0 then (missingKernel, ''backend fallback not registered on mobile'')
      else if isValid (kernel (backendFallbackKernels_' dispatcher dispatch_ix))
        then (backendFallbackKernels_' dispatcher dispatch_ix, ''backend fallback'')
      else (missingKernel, ''missing''))"

definition compute_2_4 ::
  "Externals \<Rightarrow> Dispatcher \<Rightarrow> OperatorEntry \<Rightarrow> DispatchKey \<Rightarrow> error + AnnotatedKernel \<times> string" where
  "compute_2_4 X dispatcher e k =
     (if isIncludedInAlias X k Autograd then
        bind_e (getKernelForDispatchKey e Autograd) (\<lambda>autograd_registration.
          case autograd_registration of
            Some r \<Rightarrow> Inr (r, ''autograd kernel'')
          | None \<Rightarrow> Inr (compute_3 X dispatcher k))
      else Inr (compute_3 X dispatcher k))"

definition compute_2_3 ::
  "Externals \<Rightarrow> Dispatcher \<Rightarrow> OperatorEntry \<Rightarrow> DispatchKey \<Rightarrow> bool \<Rightarrow> error + AnnotatedKernel \<times> string" where
  "compute_2_3 X dispatcher e k has_backend_kernel =
     (if k = Undefined \<or> isIncludedInAlias X k CompositeImplicitAutograd then
        bind_e (getKernelForDispatchKey e CompositeImplicitAutograd) (\<lambda>math_registration.
          case math_registration of
            Some r \<Rightarrow>
              bind_e (if k = AutogradOther
                      then hasKernelForAnyDispatchKey e (autogradother_backends X)
                      else Inr False) (\<lambda>ambiguous.
                if ambiguous then Inr (ambiguousAutogradOtherKernel, ''ambiguous autogradother'')
                else if \<not> has_backend_kernel then Inr (r, ''math kernel'')
                else compute_2_4 X dispatcher e k)
          | None \<Rightarrow> compute_2_4 X dispatcher e k)
      else compute_2_4 X dispatcher e k)"

definition compute_has_backend_kernel ::
  "Externals \<Rightarrow> Dispatcher \<Rightarrow> OperatorEntry \<Rightarrow> DispatchKey \<Rightarrow> error + AnnotatedKernel \<times> string" where
  "compute_has_backend_kernel X dispatcher e k =
     bind_e (hasKernelForAnyDispatchKey e (getBackendKeySetFromAutograd X k)) (\<lambda>b1.
     bind_e (if b1 then Inr True else hasKernelForDispatchKey e CompositeExplicitAutograd)
       (\<lambda>has_backend_kernel. compute_2_3 X dispatcher e k has_backend_kernel))"

definition compute_2_2 ::
  "Externals \<Rightarrow> Dispatcher \<Rightarrow> OperatorEntry \<Rightarrow> DispatchKey \<Rightarrow> error + AnnotatedKernel \<times> string" where
  "compute_2_2 X dispatcher e k =
     (if k = Undefined \<or> isIncludedInAlias X k CompositeExplicitAutograd then
        bind_e (getKernelForDispatchKey e CompositeExplicitAutograd) (\<lambda>default_backend_registration.
          case default_backend_registration of
            Some r \<Rightarrow> Inr (r, ''default backend kernel'')
          | None \<Rightarrow> compute_has_backend_kernel X dispatcher e k)
      else compute_has_backend_kernel X dispatcher e k)"

definition compute_2_1 ::
  "Externals \<Rightarrow> Dispatcher \<Rightarrow> OperatorEntry \<Rightarrow> DispatchKey \<Rightarrow> error + AnnotatedKernel \<times> string" where
  "compute_2_1 X dispatcher e k =
     (if k = Undefined \<or> isIncludedInAlias X k CompositeExplicitAutogradNonFunctional then
        bind_e (getKernelForDispatchKey e CompositeExplicitAutogradNonFunctional)
          (\<lambda>default_backend_registration.
            case default_backend_registration of
              Some r \<Rightarrow> Inr (r, ''default backend kernel'')
            | None \<Rightarrow> compute_2_2 X dispatcher e k)
      else compute_2_2 X dispatcher e k)"

definition computeDispatchTableEntryWithDebug ::
  "Externals \<Rightarrow> Dispatcher \<Rightarrow> OperatorEntry \<Rightarrow> DispatchKey \<Rightarrow> error + AnnotatedKernel \<times> string" where
  "computeDispatchTableEntryWithDebug X dispatcher e k =
     bind_e (getKernelForDispatchKey e k) (\<lambda>direct_registration.
       case direct_registration of
         Some r \<Rightarrow> Inr (r, ''kernel'')
       | None \<Rightarrow> compute_2_1 X dispatcher e k)"

definition computeDispatchTableEntry ::
  "Externals \<Rightarrow> Dispatcher \<Rightarrow> OperatorEntry \<Rightarrow> DispatchKey \<Rightarrow> error + KernelFunction" where
  "computeDispatchTableEntry X dispatcher e k =
     bind_e (computeDispatchTableEntryWithDebug X dispatcher e k) (\<lambda>r. Inr (kernel (fst r)))"

subsection \<open>Updating the dispatch table\<close>

text \<open>
  A member function that mutates the entry returns its outcome together with the entry as
  it is left behind, also when it throws: the C++ object keeps every assignment made before
  the exception.
\<close>

type_synonym 'a outcome = "(error + 'a) \<times> OperatorEntry"

definition then_s :: "unit outcome \<Rightarrow> (OperatorEntry \<Rightarrow> 'a outcome) \<Rightarrow> 'a outcome" where
  "then_s r f = (case fst r of Inl err \<Rightarrow> (Inl err, snd r) | Inr _ \<Rightarrow> f (snd r))"

definition updateDispatchTableEntry_' ::
  "Externals \<Rightarrow> Dispatcher \<Rightarrow> OperatorEntry \<Rightarrow> DispatchKey \<Rightarrow> unit outcome" where
  "updateDispatchTableEntry_' X dispatcher e k =
     (let dispatch_ix = getDispatchTableIndexForDispatchKey X k in
      if dispatch_ix = - 1 then (Inr (), e)
      else (case computeDispatchTableEntry X dispatcher e k of
              Inl err \<Rightarrow> (Inl err, e)
            | Inr kf \<Rightarrow> (Inr (), e\<lparr>dispatchTable_' := (dispatchTable_' e)(dispatch_ix := kf)\<rparr>)))"

text \<open>The loop \<^verbatim>\<open>for (auto k : keyset) updateDispatchTableEntry_(dispatcher, k)\<close>.\<close>

fun update_entries ::
  "Externals \<Rightarrow> Dispatcher \<Rightarrow> OperatorEntry \<Rightarrow> DispatchKey list \<Rightarrow> unit outcome" where
  "update_entries X dispatcher e [] = (Inr (), e)"
| "update_entries X dispatcher e (k # ks) =
     then_s (updateDispatchTableEntry_' X dispatcher e k)
       (\<lambda>e'. update_entries X dispatcher e' ks)"

definition updateDispatchTable_' ::
  "Externals \<Rightarrow> Dispatcher \<Rightarrow> OperatorEntry \<Rightarrow> DispatchKey \<Rightarrow> unit outcome" where
  "updateDispatchTable_' X dispatcher e k =
     (if k = Undefined then updateDispatchTableEntry_' X dispatcher e k
      else
        then_s (update_entries X dispatcher e (runtime_keys (getRuntimeDispatchKeySet X k))) (\<lambda>e1.
        then_s (if k = CompositeImplicitAutograd \<or> k = CompositeExplicitAutograd
                   \<or> k = CompositeExplicitAutogradNonFunctional
                then updateDispatchTableEntry_' X dispatcher e1 Undefined
                else (Inr (), e1)) (\<lambda>e2.
        if isBackendDispatchKey X k
        then updateDispatchTableEntry_' X dispatcher e2
               (getAutogradKeyFromBackend X (toBackendComponent k))
        else (Inr (), e2))))"

text \<open>The loop \<^verbatim>\<open>for (auto k : DispatchKeySet(FULL)) updateDispatchTable_(dispatcher, k)\<close>.\<close>

fun update_tables ::
  "Externals \<Rightarrow> Dispatcher \<Rightarrow> OperatorEntry \<Rightarrow> DispatchKey list \<Rightarrow> unit outcome" where
  "update_tables X dispatcher e [] = (Inr (), e)"
| "update_tables X dispatcher e (k # ks) =
     then_s (updateDispatchTable_' X dispatcher e k)
       (\<lambda>e'. update_tables X dispatcher e' ks)"

definition updateDispatchTableFull_' ::
  "Externals \<Rightarrow> Dispatcher \<Rightarrow> OperatorEntry \<Rightarrow> unit outcome" where
  "updateDispatchTableFull_' X dispatcher e =
     then_s (updateDispatchTable_' X dispatcher e Undefined)
       (\<lambda>e1. update_tables X dispatcher e1 (runtime_keys (FULL X)))"

text \<open>The constructor: an entry without schema, kernels or signature, fully updated.\<close>

definition OperatorEntry_new :: "Externals \<Rightarrow> Dispatcher \<Rightarrow> string \<Rightarrow> unit outcome" where
  "OperatorEntry_new X dispatcher operator_name' =
     updateDispatchTableFull_' X dispatcher
       \<lparr>name_' = operator_name', schema_' = None, dispatchTable_' = (\<lambda>_. KernelFunction_default),
        kernels_' = [], cpp_signature_' = None\<rparr>"

definition updateFallback ::
  "Externals \<Rightarrow> Dispatcher \<Rightarrow> OperatorEntry \<Rightarrow> DispatchKey \<Rightarrow> unit outcome" where
  "updateFallback X dispatcher e k = updateDispatchTable_' X dispatcher e k"

subsection \<open>Schema registration\<close>

definition checkSchema :: "Externals \<Rightarrow> FunctionSchema \<Rightarrow> FunctionSchema \<Rightarrow> error + unit" where
  "checkSchema X from_def inferred =
     (if findSchemaDifferences X from_def inferred \<noteq> None then Inl SchemaMismatch else Inr ())"

text \<open>The two nested loops of \<^verbatim>\<open>registerSchema\<close>: the first failing check throws.\<close>

fun check_kernel_list :: "Externals \<Rightarrow> FunctionSchema \<Rightarrow> AnnotatedKernelContainer \<Rightarrow> error + unit" where
  "check_kernel_list X sch [] = Inr ()"
| "check_kernel_list X sch (j # js) =
     bind_e (case inferred_function_schema (snd j) of
               Some i \<Rightarrow> checkSchema X sch i
             | None \<Rightarrow> Inr ())
       (\<lambda>_. check_kernel_list X sch js)"

fun check_kernels ::
  "Externals \<Rightarrow> FunctionSchema \<Rightarrow> (DispatchKey \<times> AnnotatedKernelContainer) list \<Rightarrow> error + unit" where
  "check_kernels X sch [] = Inr ()"
| "check_kernels X sch (kv # kvs) =
     bind_e (check_kernel_list X sch (snd kv)) (\<lambda>_. check_kernels X sch kvs)"

definition registerSchema ::
  "Externals \<Rightarrow> OperatorEntry \<Rightarrow> FunctionSchema \<Rightarrow> string \<Rightarrow> unit outcome" where
  "registerSchema X e sch dbg =
     (if schema_' e \<noteq> None then (Inl InternalAssert, e)
      else (case check_kernels X sch (kernels_' e) of
              Inl err \<Rightarrow> (Inl err, e)
            | Inr _ \<Rightarrow> (Inr (), e\<lparr>schema_' := Some \<lparr>schema = sch, schema_debug = dbg\<rparr>\<rparr>)))"

definition deregisterSchema :: "OperatorEntry \<Rightarrow> unit outcome" where
  "deregisterSchema e =
     (if schema_' e = None then (Inl InternalAssert, e)
      else (Inr (), e\<lparr>schema_' := None\<rparr>))"

subsection \<open>Kernel registration\<close>

text \<open>
  \<^verbatim>\<open>emplace_front\<close> allocates a new list node; its identity differs from those of the
  nodes in the list.
\<close>

fun fresh_node :: "AnnotatedKernelContainer \<Rightarrow> AnnotatedKernelContainerIterator" where
  "fresh_node [] = 0"
| "fresh_node (x # xs) = max (Suc (fst x)) (fresh_node xs)"

text \<open>\<^verbatim>\<open>k.erase(kernel)\<close>: the node the iterator points to is unlinked.\<close>

fun erase :: "AnnotatedKernelContainerIterator \<Rightarrow> AnnotatedKernelContainer \<Rightarrow> AnnotatedKernelContainer" where
  "erase it [] = []"
| "erase it (x # xs) = (if fst x = it then xs else x # erase it xs)"

text \<open>
  \<^verbatim>\<open>registerKernel\<close>, cut at its four steps: the check of the C++ signature against the
  recorded one (which records the first signature it sees), the check of the inferred schema
  against the declared one, the insertion at the front of the key's list (a registration
  without key goes to CompositeImplicitAutograd), and the update of the dispatch table.
  The build without \<^verbatim>\<open>C10_DISPATCHER_ONE_KERNEL_PER_DISPATCH_KEY\<close> is modelled; the warning
  about an overridden kernel has no effect on the entry.
\<close>

definition check_cpp_signature ::
  "OperatorEntry \<Rightarrow> DispatchKey option \<Rightarrow> CppSignature option \<Rightarrow> string \<Rightarrow> error + OperatorEntry" where
  "check_cpp_signature e dispatch_key' cpp_signature dbg =
     (case cpp_signature of
        None \<Rightarrow> Inr e
      | Some sig \<Rightarrow>
          (case cpp_signature_' e of
             Some recorded \<Rightarrow> if sig = signature recorded then Inr e else Inl SignatureMismatch
           | None \<Rightarrow> Inr (e\<lparr>cpp_signature_' :=
                 Some \<lparr>signature = sig, signature_debug = dbg, dispatch_key = dispatch_key'\<rparr>\<rparr>)))"

definition check_inferred_schema ::
  "Externals \<Rightarrow> OperatorEntry \<Rightarrow> FunctionSchema option \<Rightarrow> error + unit" where
  "check_inferred_schema X e inferred =
     (case (schema_' e, inferred) of
        (Some s, Some i) \<Rightarrow> checkSchema X (schema s) i
      | _ \<Rightarrow> Inr ())"

definition emplace_front_kernel ::
  "OperatorEntry \<Rightarrow> DispatchKey option \<Rightarrow> KernelFunction \<Rightarrow> FunctionSchema option \<Rightarrow> string
     \<Rightarrow> AnnotatedKernelContainerIterator \<times> OperatorEntry" where
  "emplace_front_kernel e dispatch_key' kernel' inferred dbg =
     (let dk = (case dispatch_key' of Some k \<Rightarrow> k | None \<Rightarrow> CompositeImplicitAutograd);
          k = (case map_of (kernels_' e) dk of Some xs \<Rightarrow> xs | None \<Rightarrow> []);
          inserted = fresh_node k
      in (inserted,
          e\<lparr>kernels_' := AList.update dk
               ((inserted, \<lparr>kernel = kernel', inferred_function_schema = inferred, debug = dbg\<rparr>) # k)
               (kernels_' e)\<rparr>))"

definition registerKernel ::
  "Externals \<Rightarrow> Dispatcher \<Rightarrow> OperatorEntry \<Rightarrow> DispatchKey option \<Rightarrow> KernelFunction
     \<Rightarrow> CppSignature option \<Rightarrow> FunctionSchema option \<Rightarrow> string
     \<Rightarrow> AnnotatedKernelContainerIterator outcome" where
  "registerKernel X dispatcher e dispatch_key' kernel' cpp_signature inferred dbg =
     (case check_cpp_signature e dispatch_key' cpp_signature dbg of
        Inl err \<Rightarrow> (Inl err, e)
      | Inr e1 \<Rightarrow>
         (case check_inferred_schema X e1 inferred of
            Inl err \<Rightarrow> (Inl err, e1)
          | Inr _ \<Rightarrow>
             (let inserted = fst (emplace_front_kernel e1 dispatch_key' kernel' inferred dbg);
                  e2 = snd (emplace_front_kernel e1 dispatch_key' kernel' inferred dbg);
                  r = (case dispatch_key' of
                         Some k \<Rightarrow> updateDispatchTable_' X dispatcher e2 k
                       | None \<Rightarrow> updateDispatchTableFull_' X dispatcher e2)
              in (case fst r of Inl err \<Rightarrow> (Inl err, snd r) | Inr _ \<Rightarrow> (Inr inserted, snd r)))))"

definition deregisterKernel_' ::
  "Externals \<Rightarrow> Dispatcher \<Rightarrow> OperatorEntry \<Rightarrow> DispatchKey option
     \<Rightarrow> AnnotatedKernelContainerIterator \<Rightarrow> unit outcome" where
  "deregisterKernel_' X dispatcher e dispatch_key' it =
     (let dk = (case dispatch_key' of Some k \<Rightarrow> k | None \<Rightarrow> CompositeImplicitAutograd) in
      case map_of (kernels_' e) dk of
        None \<Rightarrow> (Inl InternalAssert, e)
      | Some k \<Rightarrow>
          if it \<notin> fst ` set k then (Inl InvalidIterator, e)
          else
            (let k' = erase it k;
                 e1 = e\<lparr>kernels_' := (if k' = [] then AList.delete dk (kernels_' e)
                                        else AList.update dk k' (kernels_' e))\<rparr>
             in updateDispatchTable_' X dispatcher e1 dk))"

subsection \<open>The consistency check\<close>

text \<open>
  \<^verbatim>\<open>checkInvariants\<close>, against the dispatcher singleton. The call
  \<^verbatim>\<open>dispatchKeyExtractor().checkInvariants\<close> is left out with the extractor.
\<close>

fun check_table ::
  "Externals \<Rightarrow> Dispatcher \<Rightarrow> OperatorEntry \<Rightarrow> DispatchKey list \<Rightarrow> error + unit" where
  "check_table X dispatcher e [] = Inr ()"
| "check_table X dispatcher e (k # ks) =
     bind_e (computeDispatchTableEntry X dispatcher e k) (\<lambda>expected_k.
       let idx = getDispatchTableIndexForDispatchKey X k in
       if idx = - 1 then check_table X dispatcher e ks
       else if \<not> equalsBoxedAndUnboxed expected_k (dispatchTable_' e idx) then Inl InternalAssert
       else check_table X dispatcher e ks)"

definition checkInvariants :: "Externals \<Rightarrow> Dispatcher \<Rightarrow> OperatorEntry \<Rightarrow> error + unit" where
  "checkInvariants X dispatcher e =
     (if (case schema_' e of Some s \<Rightarrow> operator_name (schema s) \<noteq> name_' e | None \<Rightarrow> False)
        then Inl InternalAssert
      else if map_of (kernels_' e) Undefined \<noteq> None then Inl InternalAssert
      else if list_ex (\<lambda>kv. \<not> 0 < length (snd kv)) (kernels_' e) then Inl InternalAssert
      else check_table X dispatcher e (runtime_keys (FULL X)))"

section \<open>The key sets of the dispatcher\<close>

text \<open>
  Modelled from the spec: the class \<^verbatim>\<open>DispatchKeySet\<close> (DispatchKeySet.h) is missing.
  A key set is a bitmask with one bit per functionality key and one bit per backend
  component (spec, "Key Set"; DispatchKey.h, the comment before \<^verbatim>\<open>BackendComponent\<close>).
  \<open>keyset fs bs\<close> is the set with the functionality bits \<open>fs\<close> and the backend bits \<open>bs\<close>,
  both in increasing order. It contains a functionality key whose bit is set, and a
  per-backend runtime key whose functionality bit and backend bit are both set; an alias
  key has no bit. Iteration yields, for each functionality bit, the key itself if it is not
  customizable, else its runtime key for each backend bit (spec 4.1).
\<close>

definition keyset :: "DispatchKey list \<Rightarrow> BackendComponent list \<Rightarrow> DispatchKeySet" where
  "keyset fs bs =
     \<lparr>has = (\<lambda>k. if k = Undefined then True
                 else if k \<le> EndOfFunctionalityKeys then k \<in> set fs
                 else if k \<le> EndOfRuntimeBackendKeys
                   then toFunctionalityKey k \<in> set fs \<and> toBackendComponent k \<in> set bs
                 else True),
      runtime_keys = concat (map (\<lambda>f. if isPerBackendFunctionalityKey f
                                        then map (toRuntimePerBackendFunctionalityKey f) bs
                                        else [f]) fs)\<rparr>"

text \<open>
  Modelled from the spec: the constructor \<^verbatim>\<open>DispatchKeySet(DispatchKey)\<close> is missing. The
  set of one key: its functionality bit and, for a per-backend runtime key, its backend bit.
\<close>

definition keyset_of :: "DispatchKey \<Rightarrow> DispatchKeySet" where
  "keyset_of k =
     (if k = Undefined then keyset [] []
      else if k \<le> EndOfFunctionalityKeys then keyset [k] []
      else if k \<le> EndOfRuntimeBackendKeys then keyset [toFunctionalityKey k] [toBackendComponent k]
      else keyset [] [])"

text \<open>Modelled from the spec: all backend bits (\<^verbatim>\<open>full_backend_mask\<close> as a list).\<close>

definition all_backends :: "BackendComponent list" where
  "all_backends = [CPUBit, CUDABit, HIPBit, XLABit, MPSBit, IPUBit, XPUBit, HPUBit, VEBit, LazyBit,
     MetaBit, PrivateUse1Bit, PrivateUse2Bit, PrivateUse3Bit]"

text \<open>
  Modelled from the spec: \<^verbatim>\<open>DispatchKeySet(DispatchKeySet::FULL)\<close> is missing; every
  functionality bit and every backend bit, so that iteration yields every runtime key.
\<close>

definition FULL_keyset :: DispatchKeySet where
  "FULL_keyset = keyset (map of_nat [1 ..< 40]) all_backends"

text \<open>
  Modelled from the spec: the constant \<^verbatim>\<open>autogradother_backends\<close> is missing. The backends
  without an autograd key of their own (DispatchKey.h: the keys up to
  \<open>EndOfNonCustomizableBackends\<close>; "all other in-tree backends share the AutogradOther
  key"), for any backend component.
\<close>

definition autogradother_backends_keyset :: DispatchKeySet where
  "autogradother_backends_keyset =
     keyset [FPGA, ORT, Vulkan, Metal, Quantized, CustomRNGKeyId, MkldnnCPU, Sparse,
             SparseCsrCPU, SparseCsrCUDA] all_backends"

text \<open>
  Modelled from the spec: the key set of the alias CompositeExplicitAutograd is missing. The
  "explicit-backend" alias denotes the backend keys, the dense keys and the keys of
  \<open>autogradother_backends\<close>, without the autograd keys: such a kernel "requires separate
  registration for Autograd keys" (OperatorEntry.cpp, comment 2.2).
\<close>

definition backend_dispatch_keyset :: DispatchKeySet where
  "backend_dispatch_keyset =
     keyset [Dense, FPGA, ORT, Vulkan, Metal, Quantized, CustomRNGKeyId, MkldnnCPU, Sparse,
             SparseCsrCPU, SparseCsrCUDA] all_backends"

text \<open>
  Modelled from the spec: the key set of the alias CompositeExplicitAutogradNonFunctional is
  missing. The backend keys "except functional backends like LazyTensor/XLA"
  (OperatorEntry.cpp, comment 2.1).
\<close>

definition non_functional_backend_dispatch_keyset :: DispatchKeySet where
  "non_functional_backend_dispatch_keyset =
     keyset [Dense, FPGA, ORT, Vulkan, Metal, Quantized, CustomRNGKeyId, MkldnnCPU,
             SparseCsrCPU, SparseCsrCUDA]
       [CPUBit, CUDABit, HIPBit, MPSBit, IPUBit, XPUBit, HPUBit, VEBit,
        MetaBit, PrivateUse1Bit, PrivateUse2Bit, PrivateUse3Bit]"

text \<open>
  Modelled from the spec: the key set of the alias Autograd is missing. "All
  backend-specific autograd keys" (DispatchKey.h, Note [Alias Dispatch Key : Autograd]): the
  three autograd functionalities, for every backend.
\<close>

definition autograd_dispatch_keyset :: DispatchKeySet where
  "autograd_dispatch_keyset =
     keyset [AutogradOther, AutogradFunctionality, AutogradNestedTensor] all_backends"

text \<open>
  Modelled from the spec: the key set of the alias CompositeImplicitAutograd is missing. The
  backend keys and the autograd keys (OperatorEntry.cpp, comment 2.3, applies the kernel to
  autograd keys), and the nested tensor keys.
\<close>

definition math_dispatch_keyset :: DispatchKeySet where
  "math_dispatch_keyset =
     keyset [Dense, FPGA, ORT, Vulkan, Metal, Quantized, CustomRNGKeyId, MkldnnCPU, Sparse,
             SparseCsrCPU, SparseCsrCUDA, NestedTensor, AutogradOther, AutogradFunctionality,
             AutogradNestedTensor] all_backends"

text \<open>
  Modelled from the spec: \<^verbatim>\<open>getRuntimeDispatchKeySet\<close> is missing; the runtime key set an
  alias key denotes, and the key's own set otherwise (spec 4.1 and 4.3).
\<close>

definition c10_getRuntimeDispatchKeySet :: "DispatchKey \<Rightarrow> DispatchKeySet" where
  "c10_getRuntimeDispatchKeySet t =
     (if t = Autograd then autograd_dispatch_keyset
      else if t = CompositeImplicitAutograd then math_dispatch_keyset
      else if t = CompositeExplicitAutograd then backend_dispatch_keyset
      else if t = CompositeExplicitAutogradNonFunctional then non_functional_backend_dispatch_keyset
      else keyset_of t)"

text \<open>
  Modelled from the spec: \<^verbatim>\<open>isIncludedInAlias\<close> is missing; "\<open>K\<close> belongs to that alias's
  implied key set", never for \<open>Undefined\<close> (OperatorEntry.cpp, Note [Undefined in
  dispatchTable_]).
\<close>

definition c10_isIncludedInAlias :: "DispatchKey \<Rightarrow> DispatchKey \<Rightarrow> bool" where
  "c10_isIncludedInAlias k alias \<longleftrightarrow>
     k \<noteq> Undefined \<and>
     (if alias = Autograd then has autograd_dispatch_keyset (toFunctionalityKey k)
      else if alias = CompositeImplicitAutograd then has math_dispatch_keyset k
      else if alias = CompositeExplicitAutograd
        then k \<noteq> NestedTensor \<and> has backend_dispatch_keyset k
      else if alias = CompositeExplicitAutogradNonFunctional
        then k \<noteq> NestedTensor \<and> has non_functional_backend_dispatch_keyset k
      else alias = k)"

text \<open>
  Modelled from the spec: \<^verbatim>\<open>getBackendKeySetFromAutograd\<close> is missing; the backend keys
  behind an autograd key: the dense key of the same backend for a per-backend autograd key,
  the backends without a dedicated autograd key for \<open>AutogradOther\<close>, none for any other key.
\<close>

definition c10_getBackendKeySetFromAutograd :: "DispatchKey \<Rightarrow> DispatchKeySet" where
  "c10_getBackendKeySetFromAutograd t =
     (if t \<in> set [AutogradCPU, AutogradCUDA, AutogradXLA, AutogradMPS, AutogradIPU, AutogradXPU,
                   AutogradHPU, AutogradLazy, AutogradMeta, AutogradPrivateUse1,
                   AutogradPrivateUse2, AutogradPrivateUse3]
        then keyset_of (toRuntimePerBackendFunctionalityKey Dense (toBackendComponent t))
      else if t = AutogradNestedTensor then keyset_of NestedTensor
      else if t = AutogradOther then autogradother_backends_keyset
      else keyset [] [])"

text \<open>
  Modelled from the spec: \<^verbatim>\<open>isBackendDispatchKey\<close> is missing; a key of the backend key
  set that is neither \<open>Undefined\<close> nor an alias.
\<close>

definition c10_isBackendDispatchKey :: "DispatchKey \<Rightarrow> bool" where
  "c10_isBackendDispatchKey t \<longleftrightarrow>
     t \<noteq> Undefined \<and> \<not> isAliasDispatchKey t \<and> t \<noteq> NestedTensor \<and> has backend_dispatch_keyset t"

text \<open>
  Modelled from the spec: \<^verbatim>\<open>getAutogradKeyFromBackend\<close> (declared in DispatchKey.h) is
  missing; the autograd key of a backend component, \<open>AutogradOther\<close> for a backend without a
  dedicated one (the enumerators \<open>xAutogradHIP\<close> and \<open>xAutogradVE\<close> are unused).
\<close>

definition c10_getAutogradKeyFromBackend :: "BackendComponent \<Rightarrow> DispatchKey" where
  "c10_getAutogradKeyFromBackend b =
     (if b \<in> set [CPUBit, CUDABit, XLABit, MPSBit, IPUBit, XPUBit, HPUBit, LazyBit, MetaBit,
                   PrivateUse1Bit, PrivateUse2Bit, PrivateUse3Bit]
        then toRuntimePerBackendFunctionalityKey AutogradFunctionality b
      else AutogradOther)"

text \<open>
  Modelled from the spec: \<^verbatim>\<open>getDispatchTableIndexForDispatchKey\<close> is missing; the table
  is "a fixed array, indexed by runtime dispatch key", one slot per key, and no key lacks a
  slot outside the trimmed mobile build.
\<close>

definition c10_getDispatchTableIndexForDispatchKey :: "DispatchKey \<Rightarrow> int" where
  "c10_getDispatchTableIndexForDispatchKey k = uint k"

text \<open>
  Modelled from the spec: \<^verbatim>\<open>findSchemaDifferences\<close> is missing; two schemas differ when
  their texts differ.
\<close>

definition c10_findSchemaDifferences :: "FunctionSchema \<Rightarrow> FunctionSchema \<Rightarrow> string option" where
  "c10_findSchemaDifferences from_def inferred =
     (if schema_text from_def = schema_text inferred then None else Some ''schemas differ'')"

text \<open>The externals of the dispatcher, from the definitions above.\<close>

definition c10 :: Externals where
  "c10 = \<lparr>isIncludedInAlias = c10_isIncludedInAlias,
          getRuntimeDispatchKeySet = c10_getRuntimeDispatchKeySet,
          getBackendKeySetFromAutograd = c10_getBackendKeySetFromAutograd,
          autogradother_backends = autogradother_backends_keyset,
          isBackendDispatchKey = c10_isBackendDispatchKey,
          getAutogradKeyFromBackend = c10_getAutogradKeyFromBackend,
          getDispatchTableIndexForDispatchKey = c10_getDispatchTableIndexForDispatchKey,
          FULL = FULL_keyset,
          findSchemaDifferences = c10_findSchemaDifferences\<rparr>"

text \<open>A dispatcher without any backend fallback, and some kernels for concrete runs.\<close>

definition no_fallbacks :: Dispatcher where
  "no_fallbacks = \<lparr>backendFallbackKernels_' = (\<lambda>_. missingKernel)\<rparr>"

definition user_kernel :: "nat \<Rightarrow> KernelFunction" where
  "user_kernel n =
     \<lparr>functor_' = None, boxed_kernel_func_' = Some (boxed_function n), unboxed_kernel_func_' = Some n\<rparr>"

section \<open>Sequences of calls\<close>

text \<open>
  The calls that change an entry. A call that throws leaves the entry as it was at the
  throw, and the next call finds it so.
\<close>

datatype call =
    RegisterKernel Dispatcher "DispatchKey option" KernelFunction "CppSignature option"
      "FunctionSchema option" string
  | DeregisterKernel Dispatcher "DispatchKey option" AnnotatedKernelContainerIterator
  | UpdateFallback Dispatcher DispatchKey
  | RegisterSchema FunctionSchema string
  | DeregisterSchema

fun perform :: "Externals \<Rightarrow> OperatorEntry \<Rightarrow> call \<Rightarrow> OperatorEntry" where
  "perform X e (RegisterKernel d k f sig inferred dbg) = snd (registerKernel X d e k f sig inferred dbg)"
| "perform X e (DeregisterKernel d k it) = snd (deregisterKernel_' X d e k it)"
| "perform X e (UpdateFallback d k) = snd (updateFallback X d e k)"
| "perform X e (RegisterSchema sch dbg) = snd (registerSchema X e sch dbg)"
| "perform X e DeregisterSchema = snd (deregisterSchema e)"

definition perform_all :: "Externals \<Rightarrow> OperatorEntry \<Rightarrow> call list \<Rightarrow> OperatorEntry" where
  "perform_all X e cs = foldl (perform X) e cs"



section \<open>The precedence order in the words of the specification\<close>

text \<open>
  The registry invariants that the query functions assert: no list is registered under
  \<open>Undefined\<close>, no registered list is empty, and the front kernel of every list is valid.
\<close>

definition entry_wellformed :: "OperatorEntry \<Rightarrow> bool" where
  "entry_wellformed e \<longleftrightarrow>
     list_all (\<lambda>kv. fst kv \<noteq> Undefined \<and> snd kv \<noteq> [] \<and> isValid (kernel (snd (hd (snd kv)))))
       (kernels_' e)"

text \<open>The active kernel of a key: the front of its registration list.\<close>

definition registered_front :: "(DispatchKey \<times> AnnotatedKernelContainer) list \<Rightarrow> DispatchKey \<Rightarrow> AnnotatedKernel option" where
  "registered_front ks k =
     (case map_of ks k of None \<Rightarrow> None | Some xs \<Rightarrow> (case xs of [] \<Rightarrow> None | x # _ \<Rightarrow> Some (snd x)))"

text \<open>Some non-alias key of the set has a direct registration.\<close>

definition direct_kernel_in :: "(DispatchKey \<times> AnnotatedKernelContainer) list \<Rightarrow> DispatchKeySet \<Rightarrow> bool" where
  "direct_kernel_in ks s \<longleftrightarrow> list_ex (\<lambda>kv. \<not> isAliasDispatchKey (fst kv) \<and> has s (fst kv)) ks"

text \<open>
  The rules of section 4.3 of the specification, one definition per rule: each gives the
  kernel it selects for the runtime key \<open>K\<close>, if it applies. The entry for \<open>K\<close> is the
  result of the first rule that applies, and the missing-kernel marker if none does.
\<close>

fun first_applicable :: "'a option list \<Rightarrow> 'a \<Rightarrow> 'a" where
  "first_applicable [] d = d"
| "first_applicable (None # rs) d = first_applicable rs d"
| "first_applicable (Some x # rs) d = x"

definition rule_direct :: "(DispatchKey \<times> AnnotatedKernelContainer) list \<Rightarrow> DispatchKey \<Rightarrow> AnnotatedKernel option" where
  "rule_direct ks K = registered_front ks K"

definition rule_alias :: "Externals \<Rightarrow> (DispatchKey \<times> AnnotatedKernelContainer) list \<Rightarrow> DispatchKey \<Rightarrow> DispatchKey \<Rightarrow> AnnotatedKernel option" where
  "rule_alias X ks alias K =
     (if K = Undefined \<or> isIncludedInAlias X K alias then registered_front ks alias else None)"

definition rule_implicit :: "Externals \<Rightarrow> (DispatchKey \<times> AnnotatedKernelContainer) list \<Rightarrow> DispatchKey \<Rightarrow> AnnotatedKernel option" where
  "rule_implicit X ks K =
     (if (K = Undefined \<or> isIncludedInAlias X K CompositeImplicitAutograd)
          \<and> registered_front ks CompositeImplicitAutograd \<noteq> None
      then (if K = AutogradOther \<and> direct_kernel_in ks (autogradother_backends X)
              then Some ambiguousAutogradOtherKernel
            else if direct_kernel_in ks (getBackendKeySetFromAutograd X K)
                    \<or> map_of ks CompositeExplicitAutograd \<noteq> None
              then None
            else registered_front ks CompositeImplicitAutograd)
      else None)"

definition rule_autograd :: "Externals \<Rightarrow> (DispatchKey \<times> AnnotatedKernelContainer) list \<Rightarrow> DispatchKey \<Rightarrow> AnnotatedKernel option" where
  "rule_autograd X ks K =
     (if isIncludedInAlias X K Autograd then registered_front ks Autograd else None)"

definition rule_fallback :: "Externals \<Rightarrow> (int \<Rightarrow> AnnotatedKernel) \<Rightarrow> DispatchKey \<Rightarrow> AnnotatedKernel option" where
  "rule_fallback X fallback K =
     (if 0 \<le> getDispatchTableIndexForDispatchKey X K
          \<and> isValid (kernel (fallback (getDispatchTableIndexForDispatchKey X K)))
      then Some (fallback (getDispatchTableIndexForDispatchKey X K)) else None)"

definition precedence_rules ::
  "Externals \<Rightarrow> (int \<Rightarrow> AnnotatedKernel) \<Rightarrow> (DispatchKey \<times> AnnotatedKernelContainer) list \<Rightarrow> DispatchKey
     \<Rightarrow> AnnotatedKernel option list" where
  "precedence_rules X fallback ks K =
     [ rule_direct ks K,
       rule_alias X ks CompositeExplicitAutogradNonFunctional K,
       rule_alias X ks CompositeExplicitAutograd K,
       rule_implicit X ks K,
       rule_autograd X ks K,
       rule_fallback X fallback K ]"

section \<open>Entries for concrete runs\<close>

definition annotated :: "nat \<Rightarrow> string \<Rightarrow> AnnotatedKernel" where
  "annotated n dbg = \<lparr>kernel = user_kernel n, inferred_function_schema = None, debug = dbg\<rparr>"

definition entry_with :: "(DispatchKey \<times> AnnotatedKernelContainer) list \<Rightarrow> OperatorEntry" where
  "entry_with ks =
     \<lparr>name_' = ''add'', schema_' = None, dispatchTable_' = (\<lambda>_. KernelFunction_default),
      kernels_' = ks, cpp_signature_' = None\<rparr>"

text \<open>
  The scenario of the specification: operation "add" with a composite-implicit kernel
  \<open>K_math\<close> and a direct CPU kernel \<open>K_cpu\<close>; and the same registrations held in the other
  order, beside a different live table.
\<close>

definition add_math_cpu :: OperatorEntry where
  "add_math_cpu = entry_with
     [(CompositeImplicitAutograd, [(0, annotated 1 ''K_math'')]), (CPU, [(0, annotated 2 ''K_cpu'')])]"





text \<open>Two schemas of "add" that differ, an entry with a declared schema, and an entry with
  a CPU kernel whose inferred schema is the second one.\<close>

definition schema_add :: FunctionSchema where
  "schema_add = \<lparr>operator_name = ''add'', schema_text = ''add(Tensor a, Tensor b) -> Tensor''\<rparr>"

definition schema_unary :: FunctionSchema where
  "schema_unary = \<lparr>operator_name = ''add'', schema_text = ''add(Tensor a) -> Tensor''\<rparr>"

definition add_declared :: OperatorEntry where
  "add_declared = (entry_with [])\<lparr>schema_' := Some \<lparr>schema = schema_add, schema_debug = ''def''\<rparr>\<rparr>"

definition add_cpu_unary :: OperatorEntry where
  "add_cpu_unary = entry_with
     [(CPU, [(0, \<lparr>kernel = user_kernel 2, inferred_function_schema = Some schema_unary,
                  debug = ''K_cpu''\<rparr>)])]"

section \<open>The keys a table update refreshes\<close>

text \<open>
  The keys whose slots \<^verbatim>\<open>updateDispatchTable_\<close> writes for a key \<open>k\<close>, in the order of the
  writes: the runtime keys of \<open>k\<close>, then \<open>Undefined\<close> for the three composite aliases, then the
  autograd key of \<open>k\<close>'s backend for a backend key.
\<close>

definition refreshed_keys :: "Externals \<Rightarrow> DispatchKey \<Rightarrow> DispatchKey list" where
  "refreshed_keys X k =
     (if k = Undefined then [Undefined]
      else runtime_keys (getRuntimeDispatchKeySet X k)
         @ (if k = CompositeImplicitAutograd \<or> k = CompositeExplicitAutograd
               \<or> k = CompositeExplicitAutogradNonFunctional then [Undefined] else [])
         @ (if isBackendDispatchKey X k
            then [getAutogradKeyFromBackend X (toBackendComponent k)] else []))"

text \<open>The entry of a key derived from scratch, by the precedence order, from a kernel map.\<close>

definition recomputed ::
  "Externals \<Rightarrow> Dispatcher \<Rightarrow> (DispatchKey \<times> AnnotatedKernelContainer) list \<Rightarrow> DispatchKey
     \<Rightarrow> KernelFunction" where
  "recomputed X d ks k =
     kernel (first_applicable (precedence_rules X (backendFallbackKernels_' d) ks k) missingKernel)"

text \<open>The table after the slots of a list of keys were written, one after the other.\<close>

fun write_entries ::
  "Externals \<Rightarrow> Dispatcher \<Rightarrow> (DispatchKey \<times> AnnotatedKernelContainer) list \<Rightarrow> DispatchKey list
     \<Rightarrow> (int \<Rightarrow> KernelFunction) \<Rightarrow> (int \<Rightarrow> KernelFunction)" where
  "write_entries X d ks [] T = T"
| "write_entries X d ks (k # keys) T =
     write_entries X d ks keys
       (if getDispatchTableIndexForDispatchKey X k = - 1 then T
        else T(getDispatchTableIndexForDispatchKey X k := recomputed X d ks k))"

section \<open>A run that leaves a stale slot\<close>

text \<open>
  On a freshly constructed entry, without backend fallbacks: a kernel \<open>M\<close> is registered to
  CompositeImplicitAutograd, then a kernel \<open>E\<close> to CompositeExplicitAutograd; after that a
  kernel \<open>B\<close> is registered to CPU and deregistered at once with the iterator it got.
\<close>

definition register_math :: "Externals \<Rightarrow> KernelFunction \<Rightarrow> AnnotatedKernelContainerIterator outcome" where
  "register_math X M =
     registerKernel X no_fallbacks (entry_with []) (Some CompositeImplicitAutograd) M None None ''K_math''"

definition register_explicit ::
  "Externals \<Rightarrow> KernelFunction \<Rightarrow> KernelFunction \<Rightarrow> AnnotatedKernelContainerIterator outcome" where
  "register_explicit X M E =
     registerKernel X no_fallbacks (snd (register_math X M)) (Some CompositeExplicitAutograd) E
       None None ''K_explicit''"

definition register_cpu ::
  "Externals \<Rightarrow> KernelFunction \<Rightarrow> KernelFunction \<Rightarrow> KernelFunction
     \<Rightarrow> AnnotatedKernelContainerIterator outcome" where
  "register_cpu X M E B =
     registerKernel X no_fallbacks (snd (register_explicit X M E)) (Some CPU) B None None ''K_cpu''"

definition deregister_cpu ::
  "Externals \<Rightarrow> KernelFunction \<Rightarrow> KernelFunction \<Rightarrow> KernelFunction \<Rightarrow> unit outcome" where
  "deregister_cpu X M E B =
     (case fst (register_cpu X M E B) of
        Inl err \<Rightarrow> (Inl err, snd (register_cpu X M E B))
      | Inr it \<Rightarrow> deregisterKernel_' X no_fallbacks (snd (register_cpu X M E B)) (Some CPU) it)"

text \<open>The kernel maps the run goes through.\<close>

definition annotate :: "KernelFunction \<Rightarrow> string \<Rightarrow> AnnotatedKernel" where
  "annotate f dbg = \<lparr>kernel = f, inferred_function_schema = None, debug = dbg\<rparr>"

definition kernels_math :: "KernelFunction \<Rightarrow> (DispatchKey \<times> AnnotatedKernelContainer) list" where
  "kernels_math M = [(CompositeImplicitAutograd, [(0, annotate M ''K_math'')])]"

definition kernels_math_explicit ::
  "KernelFunction \<Rightarrow> KernelFunction \<Rightarrow> (DispatchKey \<times> AnnotatedKernelContainer) list" where
  "kernels_math_explicit M E =
     [(CompositeImplicitAutograd, [(0, annotate M ''K_math'')]),
      (CompositeExplicitAutograd, [(0, annotate E ''K_explicit'')])]"

definition kernels_math_explicit_cpu ::
  "KernelFunction \<Rightarrow> KernelFunction \<Rightarrow> KernelFunction \<Rightarrow> (DispatchKey \<times> AnnotatedKernelContainer) list" where
  "kernels_math_explicit_cpu M E B =
     [(CompositeImplicitAutograd, [(0, annotate M ''K_math'')]),
      (CompositeExplicitAutograd, [(0, annotate E ''K_explicit'')]),
      (CPU, [(0, annotate B ''K_cpu'')])]"

section \<open>Invariants of the kernel map\<close>

text \<open>No key is mapped to an empty list of kernels.\<close>

definition kernel_lists_nonempty :: "OperatorEntry \<Rightarrow> bool" where
  "kernel_lists_nonempty e \<longleftrightarrow> list_all (\<lambda>kv. snd kv \<noteq> []) (kernels_' e)"

text \<open>A call that registers a kernel under the key \<open>Undefined\<close>, given explicitly.\<close>

definition names_Undefined :: "call \<Rightarrow> bool" where
  "names_Undefined c =
     (case c of RegisterKernel d k f sig inferred dbg \<Rightarrow> k = Some Undefined | _ \<Rightarrow> False)"

section \<open>Runs with a registration under the key CatchAll\<close>




text \<open>
  A registration to CPU that carries the C++ signature 7, on a fresh entry.
\<close>

definition signed_registration :: "AnnotatedKernelContainerIterator outcome" where
  "signed_registration =
     registerKernel c10 no_fallbacks (entry_with []) (Some CPU) (user_kernel 2) (Some 7) None ''K_cpu''"

section \<open>Key algebra: decomposition and recomposition\<close>

lemma uint_u8: "k \<le> 255 \<Longrightarrow> uint (u8 k) = uint k"
  unfolding u8_def by (simp add: unsigned_ucast_eq take_bit_int_eq_self word_le_def)

lemma uint_wi8: "0 \<le> n \<Longrightarrow> n < 256 \<Longrightarrow> uint (word_of_int n :: 8 word) = n"
  by (simp add: uint_word_of_int_eq take_bit_int_eq_self)

lemma uint_wi16: "0 \<le> n \<Longrightarrow> n < 65536 \<Longrightarrow> uint (word_of_int n :: 16 word) = n"
  by (simp add: uint_word_of_int_eq take_bit_int_eq_self)

lemma recompose:
  assumes "c \<le> uint k" "0 \<le> c" "k \<le> 255"
  shows "(word_of_int (c + uint (word_of_int (uint (u8 k) - c) :: 8 word)) :: 16 word) = k"
proof -
  have lt: "uint k < 256" using assms(3) by (simp add: word_le_def)
  have "uint (word_of_int (uint k - c) :: 8 word) = uint k - c"
    using assms lt by (intro uint_wi8) auto
  then have "c + uint (word_of_int (uint (u8 k) - c) :: 8 word) = uint k"
    using assms(3) by (simp add: uint_u8 del: of_int_diff of_int_add)
  then show ?thesis by (simp only: word_of_int_uint)
qed

lemma backend_offset_le:
  assumes "c \<le> uint k" "uint k \<le> c + 14" "0 \<le> c" "k \<le> 255"
  shows "uint (word_of_int (uint (u8 k) - c) :: 8 word) \<le> 14"
proof -
  have "uint (word_of_int (uint k - c) :: 8 word) = uint k - c"
    using assms by (intro uint_wi8) auto
  then show ?thesis using assms by (simp add: uint_u8 del: of_int_diff of_int_add)
qed

lemma start_markers_u8:
  "uint (u8 StartOfDenseBackends) = 41" "uint (u8 StartOfQuantizedBackends) = 56"
  "uint (u8 StartOfSparseBackends) = 71" "uint (u8 StartOfNestedTensorBackends) = 86"
  "uint (u8 StartOfAutogradBackends) = 101"
  by (simp_all add: u8_def)

lemma per_backend_ranges:
  assumes "StartOfDenseBackends \<le> k" "k \<le> EndOfAutogradBackends"
  shows "k \<le> EndOfDenseBackends
       \<or> (StartOfQuantizedBackends \<le> k \<and> k \<le> EndOfQuantizedBackends)
       \<or> (StartOfSparseBackends \<le> k \<and> k \<le> EndOfSparseBackends)
       \<or> (StartOfNestedTensorBackends \<le> k \<and> k \<le> EndOfNestedTensorBackends)
       \<or> StartOfAutogradBackends \<le> k"
proof -
  have "uint k \<le> 55 \<or> (56 \<le> uint k \<and> uint k \<le> 70) \<or> (71 \<le> uint k \<and> uint k \<le> 85)
        \<or> (86 \<le> uint k \<and> uint k \<le> 100) \<or> 101 \<le> uint k"
    by linarith
  then show ?thesis by (simp add: word_le_def)
qed

lemma roundtrip_dense:
  "StartOfDenseBackends \<le> k \<Longrightarrow> k \<le> EndOfDenseBackends \<Longrightarrow>
   toRuntimePerBackendFunctionalityKey (toFunctionalityKey k) (toBackendComponent k) = k"
  unfolding toRuntimePerBackendFunctionalityKey_def toFunctionalityKey_def toBackendComponent_def
    start_markers_u8
  by (simp add: recompose word_le_def del: of_int_diff of_int_add)

lemma roundtrip_quantized:
  "StartOfQuantizedBackends \<le> k \<Longrightarrow> k \<le> EndOfQuantizedBackends \<Longrightarrow>
   toRuntimePerBackendFunctionalityKey (toFunctionalityKey k) (toBackendComponent k) = k"
  unfolding toRuntimePerBackendFunctionalityKey_def toFunctionalityKey_def toBackendComponent_def
    start_markers_u8
  by (simp add: recompose word_le_def del: of_int_diff of_int_add)

lemma roundtrip_sparse:
  "StartOfSparseBackends \<le> k \<Longrightarrow> k \<le> EndOfSparseBackends \<Longrightarrow>
   toRuntimePerBackendFunctionalityKey (toFunctionalityKey k) (toBackendComponent k) = k"
  unfolding toRuntimePerBackendFunctionalityKey_def toFunctionalityKey_def toBackendComponent_def
    start_markers_u8
  by (simp add: recompose word_le_def del: of_int_diff of_int_add)

lemma roundtrip_nested:
  "StartOfNestedTensorBackends \<le> k \<Longrightarrow> k \<le> EndOfNestedTensorBackends \<Longrightarrow>
   toRuntimePerBackendFunctionalityKey (toFunctionalityKey k) (toBackendComponent k) = k"
  unfolding toRuntimePerBackendFunctionalityKey_def toFunctionalityKey_def toBackendComponent_def
    start_markers_u8
  by (simp add: recompose word_le_def del: of_int_diff of_int_add)

lemma roundtrip_autograd:
  "StartOfAutogradBackends \<le> k \<Longrightarrow> k \<le> EndOfAutogradBackends \<Longrightarrow>
   toRuntimePerBackendFunctionalityKey (toFunctionalityKey k) (toBackendComponent k) = k"
  unfolding toRuntimePerBackendFunctionalityKey_def toFunctionalityKey_def toBackendComponent_def
    start_markers_u8
  by (simp add: recompose word_le_def del: of_int_diff of_int_add)

lemma toBackendComponent_range: "toBackendComponent k \<le> EndOfBackendKeys"
proof -
  have r: "\<And>c. c \<le> k \<Longrightarrow> k \<le> c + 14 \<Longrightarrow> c \<le> 101 \<Longrightarrow>
      (word_of_int (uint (u8 k) - uint c) :: 8 word) \<le> 14"
  proof -
    fix c :: "16 word" assume a: "c \<le> k" "k \<le> c + 14" "c \<le> 101"
    have "uint (c + 14) = uint c + 14"
      using a(3) by (simp add: word_le_def uint_word_ariths take_bit_int_eq_self)
    then have "uint (word_of_int (uint (u8 k) - uint c) :: 8 word) \<le> 14"
      using a by (intro backend_offset_le) (auto simp: word_le_def)
    then show "(word_of_int (uint (u8 k) - uint c) :: 8 word) \<le> 14"
      by (simp add: word_le_def del: of_int_diff)
  qed
  show ?thesis
    unfolding toBackendComponent_def start_markers_u8
    using r[of 41] r[of 56] r[of 71] r[of 86] r[of 101]
    by (simp del: of_int_diff)
qed

lemma toFunctionalityKey_range: "toFunctionalityKey k \<le> EndOfFunctionalityKeys"
  unfolding toFunctionalityKey_def by (auto simp: word_le_def)

lemma toRuntimePerBackendFunctionalityKey_range:
  "b \<le> EndOfBackendKeys \<Longrightarrow> toRuntimePerBackendFunctionalityKey f b \<le> EndOfRuntimeBackendKeys"
  unfolding toRuntimePerBackendFunctionalityKey_def start_markers_u8
  by (auto simp: word_le_def uint_wi16 simp del: of_int_diff of_int_add)

text \<open>
  C8. Every key \<open>k\<close> of the five per-backend ranges (from \<open>StartOfDenseBackends\<close> up to
  \<open>EndOfAutogradBackends\<close>) is recovered from its functionality and its backend component:
  \<open>toRuntimePerBackendFunctionalityKey (toFunctionalityKey k) (toBackendComponent k) = k\<close>.
  The three functions are total: on every 16-bit key and every backend component they return
  a value, and the values stay inside the enumerations (a backend component up to
  \<open>EndOfBackendKeys\<close>, a functionality key up to \<open>EndOfFunctionalityKeys\<close>, a runtime key
  up to \<open>EndOfRuntimeBackendKeys\<close>).
\<close>

theorem per_backend_key_roundtrip:
  assumes "StartOfDenseBackends \<le> k" and "k \<le> EndOfAutogradBackends"
  shows "toRuntimePerBackendFunctionalityKey (toFunctionalityKey k) (toBackendComponent k) = k
       \<and> toBackendComponent k' \<le> EndOfBackendKeys
       \<and> toFunctionalityKey k' \<le> EndOfFunctionalityKeys
       \<and> toRuntimePerBackendFunctionalityKey f (toBackendComponent k') \<le> EndOfRuntimeBackendKeys"
proof -
  have "toRuntimePerBackendFunctionalityKey (toFunctionalityKey k) (toBackendComponent k) = k"
    using per_backend_ranges[OF assms] assms
      roundtrip_dense roundtrip_quantized roundtrip_sparse roundtrip_nested roundtrip_autograd
    by blast
  then show ?thesis
    using toBackendComponent_range toFunctionalityKey_range
      toRuntimePerBackendFunctionalityKey_range by blast
qed

theorem per_backend_key_roundtrip_witness:
  "StartOfDenseBackends \<le> AutogradXLA \<and> AutogradXLA \<le> EndOfAutogradBackends
   \<and> toFunctionalityKey AutogradXLA = AutogradFunctionality
   \<and> toBackendComponent AutogradXLA = XLABit
   \<and> toRuntimePerBackendFunctionalityKey AutogradFunctionality XLABit = AutogradXLA"
proof -
  have h1: "StartOfDenseBackends \<le> AutogradXLA" by simp
  have h2: "AutogradXLA \<le> EndOfAutogradBackends" by simp
  have f: "toFunctionalityKey AutogradXLA = AutogradFunctionality"
    by (simp add: toFunctionalityKey_def)
  have b: "toBackendComponent AutogradXLA = XLABit"
    by (simp add: toBackendComponent_def u8_def)
  show ?thesis
    using per_backend_key_roundtrip[OF h1 h2, of AutogradXLA AutogradFunctionality] h1 h2 f b
    by simp
qed


section \<open>Unfolding rules for concrete runs\<close>

lemmas c10_simps = c10_def c10_isIncludedInAlias_def c10_getRuntimeDispatchKeySet_def
  c10_getBackendKeySetFromAutograd_def c10_isBackendDispatchKey_def c10_getAutogradKeyFromBackend_def
  c10_getDispatchTableIndexForDispatchKey_def keyset_def keyset_of_def all_backends_def
  autogradother_backends_keyset_def backend_dispatch_keyset_def non_functional_backend_dispatch_keyset_def
  autograd_dispatch_keyset_def math_dispatch_keyset_def toFunctionalityKey_def toBackendComponent_def
  toRuntimePerBackendFunctionalityKey_def u8_def isAliasDispatchKey_def

lemmas rule_simps = precedence_rules_def rule_direct_def rule_alias_def rule_implicit_def
  rule_autograd_def rule_fallback_def registered_front_def direct_kernel_in_def

lemmas run_simps = entry_with_def annotated_def no_fallbacks_def user_kernel_def
  missingKernel_def isValid_def KernelFunction_default_def

lemmas update_simps = registerKernel_def check_cpp_signature_def check_inferred_schema_def
  emplace_front_kernel_def updateDispatchTable_'_def updateDispatchTableEntry_'_def then_s_def
  computeDispatchTableEntry_def deregisterKernel_'_def Let_def

lemmas compute_simps = computeDispatchTableEntryWithDebug_def compute_2_1_def compute_2_2_def
  compute_has_backend_kernel_def compute_2_3_def compute_2_4_def compute_3_def bind_e_def
  getKernelForDispatchKey_def hasKernelForAnyDispatchKey_def hasKernelForDispatchKey_def

section \<open>Table updates change the dispatch table only\<close>

lemma table_update_id: "e\<lparr>dispatchTable_' := dispatchTable_' e\<rparr> = e"
  by simp

lemma entry_frame:
  "\<exists>T. snd (updateDispatchTableEntry_' X d e k) = e\<lparr>dispatchTable_' := T\<rparr>"
proof (cases "getDispatchTableIndexForDispatchKey X k = - 1")
  case True
  then have "snd (updateDispatchTableEntry_' X d e k) = e\<lparr>dispatchTable_' := dispatchTable_' e\<rparr>"
    by (simp add: updateDispatchTableEntry_'_def)
  then show ?thesis by blast
next
  case False
  show ?thesis
  proof (cases "computeDispatchTableEntry X d e k")
    case (Inl err)
    then have "snd (updateDispatchTableEntry_' X d e k) = e\<lparr>dispatchTable_' := dispatchTable_' e\<rparr>"
      using False by (simp add: updateDispatchTableEntry_'_def)
    then show ?thesis by blast
  next
    case (Inr kf)
    then show ?thesis using False by (auto simp: updateDispatchTableEntry_'_def)
  qed
qed

lemma then_s_frame:
  assumes "\<exists>T. snd r = e\<lparr>dispatchTable_' := T\<rparr>"
    and "\<And>e'. \<exists>T'. snd (f e') = e'\<lparr>dispatchTable_' := T'\<rparr>"
  shows "\<exists>T. snd (then_s r f) = e\<lparr>dispatchTable_' := T\<rparr>"
proof (cases "fst r")
  case (Inl err)
  then show ?thesis using assms(1) by (simp add: then_s_def)
next
  case (Inr u)
  obtain T where T: "snd r = e\<lparr>dispatchTable_' := T\<rparr>" using assms(1) by blast
  obtain T' where "snd (f (snd r)) = (snd r)\<lparr>dispatchTable_' := T'\<rparr>" using assms(2) by blast
  then have "snd (then_s r f) = e\<lparr>dispatchTable_' := T'\<rparr>" using Inr T by (simp add: then_s_def)
  then show ?thesis by blast
qed

lemma update_entries_frame:
  "\<exists>T. snd (update_entries X d e ks) = e\<lparr>dispatchTable_' := T\<rparr>"
proof (induction ks arbitrary: e)
  case Nil
  have "snd (update_entries X d e []) = e\<lparr>dispatchTable_' := dispatchTable_' e\<rparr>" by simp
  then show ?case by blast
next
  case (Cons k ks)
  show ?case unfolding update_entries.simps
    by (rule then_s_frame[OF entry_frame]) (rule Cons.IH)
qed

lemma skip_frame: "\<exists>T. snd (Inr (), e) = e\<lparr>dispatchTable_' := T\<rparr>"
proof -
  have "snd (Inr (), e) = e\<lparr>dispatchTable_' := dispatchTable_' e\<rparr>" by simp
  then show ?thesis by blast
qed

lemma updateDispatchTable_frame:
  "\<exists>T. snd (updateDispatchTable_' X d e k) = e\<lparr>dispatchTable_' := T\<rparr>"
proof (cases "k = Undefined")
  case True
  then show ?thesis using entry_frame[of X d e k] by (simp add: updateDispatchTable_'_def)
next
  case False
  have 3: "\<exists>T. snd (if isBackendDispatchKey X k
        then updateDispatchTableEntry_' X d e2 (getAutogradKeyFromBackend X (toBackendComponent k))
        else (Inr (), e2)) = e2\<lparr>dispatchTable_' := T\<rparr>" for e2
    using entry_frame skip_frame by (cases "isBackendDispatchKey X k") simp_all
  have 2: "\<exists>T. snd (if k = CompositeImplicitAutograd \<or> k = CompositeExplicitAutograd
                   \<or> k = CompositeExplicitAutogradNonFunctional
                then updateDispatchTableEntry_' X d e1 Undefined
                else (Inr (), e1)) = e1\<lparr>dispatchTable_' := T\<rparr>" for e1
    using entry_frame[of X d e1 Undefined] skip_frame[of e1] by (simp split: if_splits)
  show ?thesis
    unfolding updateDispatchTable_'_def using False
    by (simp only: if_False) (intro then_s_frame update_entries_frame 2 3)
qed

lemma update_tables_frame:
  "\<exists>T. snd (update_tables X d e ks) = e\<lparr>dispatchTable_' := T\<rparr>"
proof (induction ks arbitrary: e)
  case Nil
  then show ?case using skip_frame by simp
next
  case (Cons k ks)
  show ?case unfolding update_tables.simps
    by (rule then_s_frame[OF updateDispatchTable_frame]) (rule Cons.IH)
qed

lemma updateDispatchTableFull_frame:
  "\<exists>T. snd (updateDispatchTableFull_' X d e) = e\<lparr>dispatchTable_' := T\<rparr>"
  unfolding updateDispatchTableFull_'_def
  by (rule then_s_frame[OF updateDispatchTable_frame]) (rule update_tables_frame)



section \<open>The kernel map after a registration\<close>

lemma registerKernel_update_frame:
  "\<exists>T. snd (case dispatch_key' of
               Some k \<Rightarrow> updateDispatchTable_' X d e2 k
             | None \<Rightarrow> updateDispatchTableFull_' X d e2) = e2\<lparr>dispatchTable_' := T\<rparr>"
  using updateDispatchTable_frame updateDispatchTableFull_frame by (cases dispatch_key') auto

lemma check_inferred_schema_None: "check_inferred_schema X e None = Inr ()"
  by (simp add: check_inferred_schema_def split: option.splits)






section \<open>The dispatch table computation follows the precedence order\<close>

lemma wf_lookup:
  assumes "entry_wellformed e" "map_of (kernels_' e) k = Some xs"
  shows "k \<noteq> Undefined \<and> xs \<noteq> [] \<and> isValid (kernel (snd (hd xs)))"
proof -
  have "(k, xs) \<in> set (kernels_' e)" using assms(2) by (rule map_of_SomeD)
  then show ?thesis using assms(1) by (auto simp: entry_wellformed_def list_all_iff)
qed

lemma wf_no_Undefined: "entry_wellformed e \<Longrightarrow> map_of (kernels_' e) Undefined = None"
  using wf_lookup by (cases "map_of (kernels_' e) Undefined") auto

lemma get_wf:
  assumes "entry_wellformed e"
  shows "getKernelForDispatchKey e k = Inr (registered_front (kernels_' e) k)"
proof (cases "map_of (kernels_' e) k")
  case None
  then show ?thesis by (simp add: getKernelForDispatchKey_def registered_front_def)
next
  case (Some xs)
  then obtain x ys where "xs = x # ys" "isValid (kernel (snd x))"
    using wf_lookup[OF assms Some] by (cases xs) auto
  then show ?thesis using Some by (simp add: getKernelForDispatchKey_def registered_front_def)
qed

lemma hasAny_wf: "entry_wellformed e \<Longrightarrow>
   hasKernelForAnyDispatchKey e s = Inr (direct_kernel_in (kernels_' e) s)"
  by (simp add: hasKernelForAnyDispatchKey_def direct_kernel_in_def wf_no_Undefined)

lemma list_ex_key: "list_ex (\<lambda>kv. k = fst kv) xs \<longleftrightarrow> map_of xs k \<noteq> None"
  by (induction xs) auto

lemma has_wf: "entry_wellformed e \<Longrightarrow>
   hasKernelForDispatchKey e k = Inr (map_of (kernels_' e) k \<noteq> None)"
  by (simp add: hasKernelForDispatchKey_def wf_no_Undefined list_ex_key)


lemma first_applicable_Cons:
  "first_applicable (r # rs) d = (case r of Some x \<Rightarrow> x | None \<Rightarrow> first_applicable rs d)"
  by (cases r) auto

lemma compute_3_rules: "fst (compute_3 X d K) =
   first_applicable [rule_fallback X (backendFallbackKernels_' d) K] missingKernel"
  by (simp add: compute_3_def Let_def rule_fallback_def)

lemma compute_2_4_rules:
  assumes "entry_wellformed e"
  shows "map_sum id fst (compute_2_4 X d e K) =
     Inr (first_applicable [rule_autograd X (kernels_' e) K, rule_fallback X (backendFallbackKernels_' d) K] missingKernel)"
  unfolding compute_2_4_def get_wf[OF assms] first_applicable_Cons[of "rule_autograd X (kernels_' e) K"]
  by (simp add: bind_e_def compute_3_rules rule_autograd_def split: option.splits)

lemma compute_2_3_rules:
  assumes "entry_wellformed e"
  shows "map_sum id fst (compute_2_3 X d e K
            (direct_kernel_in (kernels_' e) (getBackendKeySetFromAutograd X K)
               \<or> map_of (kernels_' e) CompositeExplicitAutograd \<noteq> None)) =
     Inr (first_applicable [rule_implicit X (kernels_' e) K, rule_autograd X (kernels_' e) K,
            rule_fallback X (backendFallbackKernels_' d) K] missingKernel)"
  unfolding compute_2_3_def get_wf[OF assms] hasAny_wf[OF assms]
     first_applicable_Cons[of "rule_implicit X (kernels_' e) K"]
  by (simp add: bind_e_def compute_2_4_rules[OF assms] rule_implicit_def split: option.splits)

lemma compute_has_backend_kernel_rules:
  assumes "entry_wellformed e"
  shows "map_sum id fst (compute_has_backend_kernel X d e K) =
     Inr (first_applicable [rule_implicit X (kernels_' e) K, rule_autograd X (kernels_' e) K,
            rule_fallback X (backendFallbackKernels_' d) K] missingKernel)"
proof -
  have "compute_has_backend_kernel X d e K = compute_2_3 X d e K
            (direct_kernel_in (kernels_' e) (getBackendKeySetFromAutograd X K)
               \<or> map_of (kernels_' e) CompositeExplicitAutograd \<noteq> None)"
    unfolding compute_has_backend_kernel_def hasAny_wf[OF assms] has_wf[OF assms]
    by (simp add: bind_e_def)
  then show ?thesis by (simp only: compute_2_3_rules[OF assms])
qed


lemma alias_stage:
  assumes "map_sum id fst rest = Inr (first_applicable rs d)"
  shows "map_sum id fst
           (if c then bind_e (Inr r) (\<lambda>reg. case reg of Some x \<Rightarrow> Inr (x, s) | None \<Rightarrow> rest) else rest)
         = Inr (first_applicable ((if c then r else None) # rs) d)"
  using assms by (cases r) (auto simp: bind_e_def)

lemma compute_2_2_rules:
  assumes "entry_wellformed e"
  shows "map_sum id fst (compute_2_2 X d e K) =
     Inr (first_applicable
           [rule_alias X (kernels_' e) CompositeExplicitAutograd K,
            rule_implicit X (kernels_' e) K, rule_autograd X (kernels_' e) K,
            rule_fallback X (backendFallbackKernels_' d) K] missingKernel)"
  unfolding compute_2_2_def get_wf[OF assms] rule_alias_def
  by (rule alias_stage) (rule compute_has_backend_kernel_rules[OF assms])

lemma compute_2_1_rules:
  assumes "entry_wellformed e"
  shows "map_sum id fst (compute_2_1 X d e K) =
     Inr (first_applicable
           [rule_alias X (kernels_' e) CompositeExplicitAutogradNonFunctional K,
            rule_alias X (kernels_' e) CompositeExplicitAutograd K,
            rule_implicit X (kernels_' e) K, rule_autograd X (kernels_' e) K,
            rule_fallback X (backendFallbackKernels_' d) K] missingKernel)"
  unfolding compute_2_1_def get_wf[OF assms] rule_alias_def[of X _ CompositeExplicitAutogradNonFunctional]
  by (rule alias_stage) (rule compute_2_2_rules[OF assms])


lemma compute_with_debug_rules:
  assumes "entry_wellformed e"
  shows "map_sum id fst (computeDispatchTableEntryWithDebug X d e K) =
         Inr (first_applicable (precedence_rules X (backendFallbackKernels_' d) (kernels_' e) K) missingKernel)"
  using alias_stage[where c = True and r = "registered_front (kernels_' e) K" and s = "''kernel''",
          OF compute_2_1_rules[OF assms, of X d K]]
  unfolding computeDispatchTableEntryWithDebug_def get_wf[OF assms] precedence_rules_def rule_direct_def
  by simp

lemma compute_entry_rules:
  assumes "entry_wellformed e"
  shows "computeDispatchTableEntry X d e K =
         Inr (kernel (first_applicable (precedence_rules X (backendFallbackKernels_' d) (kernels_' e) K) missingKernel))"
  using compute_with_debug_rules[OF assms, of X d K] unfolding computeDispatchTableEntry_def
  by (cases "computeDispatchTableEntryWithDebug X d e K") (auto simp: bind_e_def)












section \<open>Schema registration fails before it changes anything\<close>

lemma check_kernel_list_eq:
  "check_kernel_list X sch js =
     (if \<exists>j\<in>set js. \<exists>i. inferred_function_schema (snd j) = Some i \<and> findSchemaDifferences X sch i \<noteq> None
      then Inl SchemaMismatch else Inr ())"
  by (induction js) (auto simp: bind_e_def checkSchema_def split: option.splits)

lemma check_kernels_eq:
  "check_kernels X sch ks =
     (if \<exists>kv\<in>set ks. \<exists>j\<in>set (snd kv). \<exists>i. inferred_function_schema (snd j) = Some i
            \<and> findSchemaDifferences X sch i \<noteq> None
      then Inl SchemaMismatch else Inr ())"
  by (induction ks) (auto simp: bind_e_def check_kernel_list_eq)

text \<open>
  C7. \<open>registerSchema\<close> fails (internal assertion) whenever a schema is already registered;
  it fails with a schema mismatch whenever some registered kernel has an inferred schema that
  \<open>findSchemaDifferences\<close> tells apart from the new schema; whenever it fails, the entry it
  leaves behind is the entry it found (the checks precede the only assignment); otherwise it
  stores the schema.
\<close>

theorem registerSchema_failures:
  "(schema_' e \<noteq> None \<longrightarrow> registerSchema X e sch dbg = (Inl InternalAssert, e))
 \<and> (schema_' e = None
      \<and> (\<exists>kv\<in>set (kernels_' e). \<exists>j\<in>set (snd kv). \<exists>i. inferred_function_schema (snd j) = Some i
             \<and> findSchemaDifferences X sch i \<noteq> None)
     \<longrightarrow> registerSchema X e sch dbg = (Inl SchemaMismatch, e))
 \<and> (\<forall>err. fst (registerSchema X e sch dbg) = Inl err \<longrightarrow> snd (registerSchema X e sch dbg) = e)
 \<and> (schema_' e = None
      \<and> \<not> (\<exists>kv\<in>set (kernels_' e). \<exists>j\<in>set (snd kv). \<exists>i. inferred_function_schema (snd j) = Some i
             \<and> findSchemaDifferences X sch i \<noteq> None)
     \<longrightarrow> registerSchema X e sch dbg
           = (Inr (), e\<lparr>schema_' := Some \<lparr>schema = sch, schema_debug = dbg\<rparr>\<rparr>))"
  unfolding registerSchema_def check_kernels_eq by (auto split: sum.splits)

theorem registerSchema_failures_witness:
  "schema_' add_declared \<noteq> None
   \<and> registerSchema c10 add_declared schema_unary ''again'' = (Inl InternalAssert, add_declared)
   \<and> schema_' add_cpu_unary = None
   \<and> registerSchema c10 add_cpu_unary schema_add ''def'' = (Inl SchemaMismatch, add_cpu_unary)
   \<and> registerSchema c10 add_cpu_unary schema_unary ''def''
       = (Inr (), add_cpu_unary\<lparr>schema_' := Some \<lparr>schema = schema_unary, schema_debug = ''def''\<rparr>\<rparr>)"
proof -
  have 1: "schema_' add_declared \<noteq> None" by (simp add: add_declared_def)
  have 2: "schema_' add_cpu_unary = None" by (simp add: add_cpu_unary_def entry_with_def)
  have 3: "\<exists>kv\<in>set (kernels_' add_cpu_unary). \<exists>j\<in>set (snd kv). \<exists>i.
             inferred_function_schema (snd j) = Some i \<and> findSchemaDifferences c10 schema_add i \<noteq> None"
    by (simp add: add_cpu_unary_def entry_with_def c10_def c10_findSchemaDifferences_def
          schema_add_def schema_unary_def)
  have 4: "\<not> (\<exists>kv\<in>set (kernels_' add_cpu_unary). \<exists>j\<in>set (snd kv). \<exists>i.
             inferred_function_schema (snd j) = Some i \<and> findSchemaDifferences c10 schema_unary i \<noteq> None)"
    by (simp add: add_cpu_unary_def entry_with_def c10_def c10_findSchemaDifferences_def)
  show ?thesis
    using registerSchema_failures[of add_declared c10 schema_unary "''again''"]
      registerSchema_failures[of add_cpu_unary c10 schema_add "''def''"]
      registerSchema_failures[of add_cpu_unary c10 schema_unary "''def''"] 1 2 3 4
    by blast
qed


section \<open>Kernel registration: outcomes and the recorded signature\<close>

lemma registerKernel_cases:
  obtains (signature_mismatch) "check_cpp_signature e dk' sig dbg = Inl SignatureMismatch"
      "registerKernel X d e dk' f sig inferred dbg = (Inl SignatureMismatch, e)"
  | (schema_mismatch) e1 where "check_cpp_signature e dk' sig dbg = Inr e1"
      "registerKernel X d e dk' f sig inferred dbg = (Inl SchemaMismatch, e1)"
  | (inserted) e1 T where "check_cpp_signature e dk' sig dbg = Inr e1"
      "snd (registerKernel X d e dk' f sig inferred dbg)
         = (snd (emplace_front_kernel e1 dk' f inferred dbg))\<lparr>dispatchTable_' := T\<rparr>"
      "\<And>tok. fst (registerKernel X d e dk' f sig inferred dbg) = Inr tok
           \<Longrightarrow> tok = fst (emplace_front_kernel e1 dk' f inferred dbg)"
proof (cases "check_cpp_signature e dk' sig dbg")
  case (Inl err)
  then have "err = SignatureMismatch"
    by (auto simp: check_cpp_signature_def split: option.splits if_splits)
  then show ?thesis using Inl signature_mismatch by (simp add: registerKernel_def)
next
  case (Inr e1)
  show ?thesis
  proof (cases "check_inferred_schema X e1 inferred")
    case (Inl err)
    then have "err = SchemaMismatch"
      by (auto simp: check_inferred_schema_def checkSchema_def split: option.splits if_splits)
    then show ?thesis using Inl Inr schema_mismatch by (simp add: registerKernel_def)
  next
    case (Inr u)
    let ?e2 = "snd (emplace_front_kernel e1 dk' f inferred dbg)"
    let ?r = "case dk' of Some k \<Rightarrow> updateDispatchTable_' X d ?e2 k
                        | None \<Rightarrow> updateDispatchTableFull_' X d ?e2"
    obtain T where T: "snd ?r = ?e2\<lparr>dispatchTable_' := T\<rparr>"
      using registerKernel_update_frame by blast
    have r: "registerKernel X d e dk' f sig inferred dbg =
        (case fst ?r of Inl err \<Rightarrow> (Inl err, snd ?r)
                      | Inr _ \<Rightarrow> (Inr (fst (emplace_front_kernel e1 dk' f inferred dbg)), snd ?r))"
      using \<open>check_cpp_signature e dk' sig dbg = Inr e1\<close> Inr
      by (simp add: registerKernel_def Let_def)
    have s: "snd (registerKernel X d e dk' f sig inferred dbg) = ?e2\<lparr>dispatchTable_' := T\<rparr>"
      unfolding r using T by (cases "fst ?r") simp_all
    have t: "\<And>tok. fst (registerKernel X d e dk' f sig inferred dbg) = Inr tok
           \<Longrightarrow> tok = fst (emplace_front_kernel e1 dk' f inferred dbg)"
      unfolding r by (cases "fst ?r") simp_all
    show ?thesis using inserted[OF \<open>check_cpp_signature e dk' sig dbg = Inr e1\<close> s t] .
  qed
qed

lemma check_cpp_signature_keeps:
  assumes "check_cpp_signature e dk' sig dbg = Inr e1"
  shows "kernels_' e1 = kernels_' e" "schema_' e1 = schema_' e"
    "cpp_signature_' e = Some s \<Longrightarrow> cpp_signature_' e1 = Some s"
  using assms by (auto simp: check_cpp_signature_def split: option.splits if_splits)

lemma emplace_front_kernel_signature:
  "cpp_signature_' (snd (emplace_front_kernel e dk' f inferred dbg)) = cpp_signature_' e"
  by (simp add: emplace_front_kernel_def Let_def)

lemma registerKernel_signature:
  assumes "cpp_signature_' e = Some s"
  shows "cpp_signature_' (snd (registerKernel X d e dk' f sig inferred dbg)) = Some s"
proof (cases rule: registerKernel_cases[of e dk' sig dbg X d f inferred])
  case signature_mismatch
  then show ?thesis using assms by simp
next
  case (schema_mismatch e1)
  then show ?thesis using assms check_cpp_signature_keeps(3) by simp
next
  case (inserted e1 T)
  then show ?thesis using assms check_cpp_signature_keeps(3)
    by (simp add: emplace_front_kernel_signature)
qed

lemma registerKernel_mismatch:
  assumes "cpp_signature_' e = Some s" "sig \<noteq> signature s"
  shows "registerKernel X d e dk' f (Some sig) inferred dbg = (Inl SignatureMismatch, e)"
  using assms by (simp add: registerKernel_def check_cpp_signature_def)

lemma registerKernel_records:
  assumes "cpp_signature_' e = None"
  shows "cpp_signature_' (snd (registerKernel X d e dk' f (Some sig) inferred dbg))
         = Some \<lparr>signature = sig, signature_debug = dbg, dispatch_key = dk'\<rparr>"
proof -
  have c: "check_cpp_signature e dk' (Some sig) dbg
        = Inr (e\<lparr>cpp_signature_' := Some \<lparr>signature = sig, signature_debug = dbg, dispatch_key = dk'\<rparr>\<rparr>)"
    using assms by (simp add: check_cpp_signature_def)
  show ?thesis
  proof (cases rule: registerKernel_cases[of e dk' "Some sig" dbg X d f inferred])
    case signature_mismatch
    then show ?thesis using c by simp
  next
    case (schema_mismatch e1)
    then show ?thesis using c by auto
  next
    case (inserted e1 T)
    then show ?thesis using c by (auto simp: emplace_front_kernel_signature)
  qed
qed

lemma deregisterKernel_signature:
  "cpp_signature_' (snd (deregisterKernel_' X d e dk' it)) = cpp_signature_' e"
proof -
  have "\<And>e1 k. cpp_signature_' (snd (updateDispatchTable_' X d e1 k)) = cpp_signature_' e1"
  proof -
    fix e1 k
    obtain T where "snd (updateDispatchTable_' X d e1 k) = e1\<lparr>dispatchTable_' := T\<rparr>"
      using updateDispatchTable_frame by blast
    then show "cpp_signature_' (snd (updateDispatchTable_' X d e1 k)) = cpp_signature_' e1" by simp
  qed
  then show ?thesis
    by (simp add: deregisterKernel_'_def Let_def split: option.splits)
qed

lemma perform_signature:
  assumes "cpp_signature_' e = Some s"
  shows "cpp_signature_' (perform X e c) = Some s"
proof (cases c)
  case (RegisterKernel d k f sig inferred dbg)
  then show ?thesis using registerKernel_signature[OF assms] by simp
next
  case (DeregisterKernel d k it)
  then show ?thesis using assms by (simp add: deregisterKernel_signature)
next
  case (UpdateFallback d k)
  obtain T where "snd (updateDispatchTable_' X d e k) = e\<lparr>dispatchTable_' := T\<rparr>"
    using updateDispatchTable_frame by blast
  then show ?thesis using assms UpdateFallback by (simp add: updateFallback_def)
next
  case (RegisterSchema sch dbg)
  then show ?thesis using assms by (simp add: registerSchema_def split: sum.splits)
next
  case DeregisterSchema
  then show ?thesis using assms by (simp add: deregisterSchema_def)
qed

lemma perform_all_signature:
  "cpp_signature_' e = Some s \<Longrightarrow> cpp_signature_' (perform_all X e cs) = Some s"
  unfolding perform_all_def
  by (induction cs arbitrary: e) (simp_all add: perform_signature)



lemma signed_registration_eq:
  "signed_registration =
     (Inr 0, \<lparr>name_' = ''add'', schema_' = None,
              dispatchTable_' = (\<lambda>_. KernelFunction_default)(42 := user_kernel 2, 102 := KernelFunction_default),
              kernels_' = [(CPU, [(0, annotated 2 ''K_cpu'')])],
              cpp_signature_' = Some \<lparr>signature = 7, signature_debug = ''K_cpu'', dispatch_key = Some CPU\<rparr>\<rparr>)"
  unfolding signed_registration_def
  by (simp add: update_simps compute_simps c10_simps run_simps isPerBackendFunctionalityKey_def)

lemma signed_deregistration:
  "fst (deregisterKernel_' c10 no_fallbacks (snd signed_registration) (Some CPU) 0) = Inr ()"
  "kernels_' (snd (deregisterKernel_' c10 no_fallbacks (snd signed_registration) (Some CPU) 0)) = []"
  unfolding signed_registration_eq
  by (simp_all add: update_simps compute_simps c10_simps run_simps isPerBackendFunctionalityKey_def)

text \<open>
  C9. A registration that carries a C++ signature records it when none is recorded (also
  when the registration fails later). A recorded signature survives every sequence of calls
  (registrations, deregistrations, fallback updates, schema registration and
  deregistration), whether they succeed or throw; so after any such sequence a registration
  that carries a different signature fails with a signature mismatch and leaves the entry as
  it found it.
\<close>

theorem cpp_signature_persists:
  "(cpp_signature_' e0 = None \<longrightarrow>
      cpp_signature_' (snd (registerKernel X d0 e0 k0 f0 (Some s0) i0 dbg0))
        = Some \<lparr>signature = s0, signature_debug = dbg0, dispatch_key = k0\<rparr>)
 \<and> (cpp_signature_' e = Some s \<longrightarrow>
      cpp_signature_' (perform_all X e cs) = Some s
      \<and> (sig \<noteq> signature s \<longrightarrow>
           registerKernel X d (perform_all X e cs) k f (Some sig) inferred dbg
             = (Inl SignatureMismatch, perform_all X e cs)))"
  by (simp add: registerKernel_records perform_all_signature registerKernel_mismatch)

theorem cpp_signature_persists_witness:
  "cpp_signature_' (entry_with []) = None
   \<and> fst signed_registration = Inr 0
   \<and> getKernelForDispatchKey (snd signed_registration) CPU = Inr (Some (annotated 2 ''K_cpu''))
   \<and> cpp_signature_' (snd signed_registration)
       = Some \<lparr>signature = 7, signature_debug = ''K_cpu'', dispatch_key = Some CPU\<rparr>
   \<and> fst (deregisterKernel_' c10 no_fallbacks (snd signed_registration) (Some CPU) 0) = Inr ()
   \<and> kernels_' (perform_all c10 (snd signed_registration) [DeregisterKernel no_fallbacks (Some CPU) 0]) = []
   \<and> cpp_signature_' (perform_all c10 (snd signed_registration) [DeregisterKernel no_fallbacks (Some CPU) 0])
       = Some \<lparr>signature = 7, signature_debug = ''K_cpu'', dispatch_key = Some CPU\<rparr>
   \<and> registerKernel c10 no_fallbacks
        (perform_all c10 (snd signed_registration) [DeregisterKernel no_fallbacks (Some CPU) 0])
        (Some CPU) (user_kernel 3) (Some 8) None ''K_other''
       = (Inl SignatureMismatch,
          perform_all c10 (snd signed_registration) [DeregisterKernel no_fallbacks (Some CPU) 0])"
proof -
  have 1: "cpp_signature_' (entry_with []) = None" by (simp add: entry_with_def)
  have 2: "fst signed_registration = Inr 0" by (simp add: signed_registration_eq)
  have 3: "getKernelForDispatchKey (snd signed_registration) CPU = Inr (Some (annotated 2 ''K_cpu''))"
    by (simp add: signed_registration_eq getKernelForDispatchKey_def run_simps)
  have 4: "(8::nat) \<noteq> signature \<lparr>signature = 7, signature_debug = ''K_cpu'', dispatch_key = Some CPU\<rparr>"
    by simp
  have 5: "kernels_' (perform_all c10 (snd signed_registration) [DeregisterKernel no_fallbacks (Some CPU) 0]) = []"
    by (simp add: perform_all_def signed_deregistration)
  have r: "snd (registerKernel c10 no_fallbacks (entry_with []) (Some CPU) (user_kernel 2) (Some 7) None ''K_cpu'')
           = snd signed_registration"
    by (simp add: signed_registration_def)
  show ?thesis
    using cpp_signature_persists[of "entry_with []" c10 no_fallbacks "Some CPU" "user_kernel 2" 7
        None "''K_cpu''" "snd signed_registration"
        "\<lparr>signature = 7, signature_debug = ''K_cpu'', dispatch_key = Some CPU\<rparr>"
        "[DeregisterKernel no_fallbacks (Some CPU) 0]" 8 no_fallbacks
        "Some CPU" "user_kernel 3" None "''K_other''"] 1 2 3 4 5 signed_deregistration(1)
    unfolding r by blast
qed

section \<open>Shadowing and restoring the active kernel\<close>

lemma getKernel_table_update [simp]:
  "getKernelForDispatchKey (e\<lparr>dispatchTable_' := T\<rparr>) K = getKernelForDispatchKey e K"
  by (simp add: getKernelForDispatchKey_def)

lemma getKernel_front:
  assumes "map_of (kernels_' e) K = Some (x # xs)" "isValid (kernel (snd x))"
  shows "getKernelForDispatchKey e K = Inr (Some (snd x))"
  using assms by (simp add: getKernelForDispatchKey_def)

lemma getKernel_active:
  assumes "getKernelForDispatchKey e K = Inr (Some A)"
  obtains x xs where "map_of (kernels_' e) K = Some (x # xs)" "snd x = A" "isValid (kernel A)"
  using assms
  by (auto simp: getKernelForDispatchKey_def split: option.splits list.splits if_splits)

text \<open>
  C5. Let \<open>A\<close> be the active kernel of key \<open>K\<close> (the front of its list), and let the
  registration of a valid kernel \<open>B\<close> to \<open>K\<close> succeed, with or without a key (without a key,
  \<open>K\<close> is CompositeImplicitAutograd). Then \<open>getKernelForDispatchKey K\<close> returns \<open>B\<close> in the
  entry left by the registration, and returns \<open>A\<close> again in the entry left by the
  deregistration of \<open>B\<close> with the returned iterator.
\<close>

theorem shadow_restore:
  assumes active: "getKernelForDispatchKey e K = Inr (Some A)"
    and K: "K = (case dk' of Some k \<Rightarrow> k | None \<Rightarrow> CompositeImplicitAutograd)"
    and valid: "isValid B"
    and reg: "fst (registerKernel X d e dk' B sig inferred dbg) = Inr tok"
  shows "getKernelForDispatchKey (snd (registerKernel X d e dk' B sig inferred dbg)) K
           = Inr (Some \<lparr>kernel = B, inferred_function_schema = inferred, debug = dbg\<rparr>)
       \<and> getKernelForDispatchKey
           (snd (deregisterKernel_' X d' (snd (registerKernel X d e dk' B sig inferred dbg)) dk' tok)) K
           = Inr (Some A)"
proof -
  let ?B = "\<lparr>kernel = B, inferred_function_schema = inferred, debug = dbg\<rparr>"
  let ?s1 = "snd (registerKernel X d e dk' B sig inferred dbg)"
  obtain x xs where xs: "map_of (kernels_' e) K = Some (x # xs)" "snd x = A" "isValid (kernel A)"
    using active by (rule getKernel_active)
  obtain e1 T where e1: "check_cpp_signature e dk' sig dbg = Inr e1"
    and s1: "?s1 = (snd (emplace_front_kernel e1 dk' B inferred dbg))\<lparr>dispatchTable_' := T\<rparr>"
    and tok: "tok = fst (emplace_front_kernel e1 dk' B inferred dbg)"
    using reg by (cases rule: registerKernel_cases[of e dk' sig dbg X d B inferred]) auto
  have k1: "kernels_' e1 = kernels_' e" using check_cpp_signature_keeps(1)[OF e1] .
  have tok': "tok = fresh_node (x # xs)"
    using tok xs(1) K k1 by (simp add: emplace_front_kernel_def Let_def)
  have ks1: "kernels_' ?s1 = AList.update K ((tok, ?B) # x # xs) (kernels_' e)"
    unfolding s1 using xs(1) K k1 tok' by (simp add: emplace_front_kernel_def Let_def)
  have m1: "map_of (kernels_' ?s1) K = Some ((tok, ?B) # x # xs)"
    unfolding ks1 by (simp add: update_conv')
  have first: "getKernelForDispatchKey ?s1 K = Inr (Some ?B)"
    using getKernel_front[OF m1] valid by simp
  let ?s2 = "?s1\<lparr>kernels_' := AList.update K (x # xs) (kernels_' ?s1)\<rparr>"
  have d: "deregisterKernel_' X d' ?s1 dk' tok = updateDispatchTable_' X d' ?s2 K"
    using m1 K by (simp add: deregisterKernel_'_def Let_def)
  obtain T' where T': "snd (updateDispatchTable_' X d' ?s2 K) = ?s2\<lparr>dispatchTable_' := T'\<rparr>"
    using updateDispatchTable_frame by blast
  have m2: "map_of (kernels_' ?s2) K = Some (x # xs)" by (simp add: update_conv')
  have second: "getKernelForDispatchKey (snd (deregisterKernel_' X d' ?s1 dk' tok)) K = Inr (Some A)"
    unfolding d T' using getKernel_front[OF m2] xs(2,3) by simp
  show ?thesis using first second by simp
qed


theorem shadow_restore_witness:
  "getKernelForDispatchKey add_math_cpu CPU = Inr (Some (annotated 2 ''K_cpu''))
   \<and> isValid (user_kernel 3)
   \<and> fst (registerKernel c10 no_fallbacks add_math_cpu (Some CPU) (user_kernel 3) None None ''K_new'')
       = Inr 1
   \<and> getKernelForDispatchKey
        (snd (registerKernel c10 no_fallbacks add_math_cpu (Some CPU) (user_kernel 3) None None ''K_new''))
        CPU
       = Inr (Some (annotated 3 ''K_new''))
   \<and> getKernelForDispatchKey
        (snd (deregisterKernel_' c10 no_fallbacks
               (snd (registerKernel c10 no_fallbacks add_math_cpu (Some CPU) (user_kernel 3) None None
                       ''K_new''))
               (Some CPU) 1)) CPU
       = Inr (Some (annotated 2 ''K_cpu''))"
proof -
  have 1: "getKernelForDispatchKey add_math_cpu CPU = Inr (Some (annotated 2 ''K_cpu''))"
    by (simp add: add_math_cpu_def compute_simps run_simps)
  have 2: "CPU = (case Some CPU of Some k \<Rightarrow> k | None \<Rightarrow> CompositeImplicitAutograd)" by simp
  have 3: "isValid (user_kernel 3)" by (simp add: run_simps)
  have 4: "fst (registerKernel c10 no_fallbacks add_math_cpu (Some CPU) (user_kernel 3) None None
                  ''K_new'') = Inr 1"
    by (simp add: update_simps compute_simps c10_simps run_simps add_math_cpu_def)
  show ?thesis
    using shadow_restore[OF 1 2 3 4, of no_fallbacks] 1 3 4 by (simp add: annotated_def)
qed


section \<open>The kernel map and its invariants\<close>

lemma compute_no_kernels:
  assumes "kernels_' e = []"
  shows "computeDispatchTableEntry X no_fallbacks e k = Inr KernelFunction_default"
proof -
  have wf: "entry_wellformed e" using assms by (simp add: entry_wellformed_def)
  show ?thesis
    unfolding compute_entry_rules[OF wf]
    using assms by (simp add: rule_simps run_simps)
qed

lemma entry_idle:
  assumes "kernels_' e = []" "dispatchTable_' e = (\<lambda>_. KernelFunction_default)"
  shows "updateDispatchTableEntry_' X no_fallbacks e k = (Inr (), e)"
proof -
  have "(dispatchTable_' e)(i := KernelFunction_default) = dispatchTable_' e" for i
    using assms(2) by (simp add: fun_eq_iff)
  then show ?thesis
    by (simp add: updateDispatchTableEntry_'_def Let_def compute_no_kernels[OF assms(1)])
qed

lemma update_entries_idle:
  assumes "kernels_' e = []" "dispatchTable_' e = (\<lambda>_. KernelFunction_default)"
  shows "update_entries X no_fallbacks e ks = (Inr (), e)"
  by (induction ks) (simp_all add: entry_idle[OF assms] then_s_def)

lemma updateDispatchTable_idle:
  assumes "kernels_' e = []" "dispatchTable_' e = (\<lambda>_. KernelFunction_default)"
  shows "updateDispatchTable_' X no_fallbacks e k = (Inr (), e)"
  by (simp add: updateDispatchTable_'_def entry_idle[OF assms] update_entries_idle[OF assms] then_s_def)

lemma update_tables_idle:
  assumes "kernels_' e = []" "dispatchTable_' e = (\<lambda>_. KernelFunction_default)"
  shows "update_tables X no_fallbacks e ks = (Inr (), e)"
  by (induction ks) (simp_all add: updateDispatchTable_idle[OF assms] then_s_def)

lemma OperatorEntry_new_no_fallbacks:
  "OperatorEntry_new X no_fallbacks ''add'' = (Inr (), entry_with [])"
  by (simp add: OperatorEntry_new_def updateDispatchTableFull_'_def entry_with_def
        updateDispatchTable_idle update_tables_idle then_s_def)

text \<open>
  What holds of the kernel map: after any sequence of calls on a fresh entry no key is
  mapped to an empty list, and no list is stored under \<open>Undefined\<close> as long as no
  registration names \<open>Undefined\<close> as its key.
\<close>

lemma set_update_subset: "set (AList.update k v al) \<subseteq> insert (k, v) (set al)"
  by (induction al) auto

lemma set_delete_subset: "set (AList.delete k al) \<subseteq> set al"
  by (induction al) auto

lemma nonempty_table_update [simp]:
  "kernel_lists_nonempty (e\<lparr>dispatchTable_' := T\<rparr>) = kernel_lists_nonempty e"
  by (simp add: kernel_lists_nonempty_def)

lemma nonempty_update:
  assumes "kernel_lists_nonempty e" "v \<noteq> []"
  shows "kernel_lists_nonempty (e\<lparr>kernels_' := AList.update k v (kernels_' e)\<rparr>)"
  using assms set_update_subset[of k v "kernels_' e"]
  by (auto simp: kernel_lists_nonempty_def list_all_iff)

lemma nonempty_delete:
  assumes "kernel_lists_nonempty e"
  shows "kernel_lists_nonempty (e\<lparr>kernels_' := AList.delete k (kernels_' e)\<rparr>)"
  using assms set_delete_subset[of k "kernels_' e"]
  by (auto simp: kernel_lists_nonempty_def list_all_iff)

lemma check_cpp_signature_nonempty:
  "check_cpp_signature e dk' sig dbg = Inr e1 \<Longrightarrow> kernel_lists_nonempty e1 = kernel_lists_nonempty e"
  by (simp add: kernel_lists_nonempty_def check_cpp_signature_keeps(1))

lemma registerKernel_nonempty:
  assumes "kernel_lists_nonempty e"
  shows "kernel_lists_nonempty (snd (registerKernel X d e dk' f sig inferred dbg))"
proof (cases rule: registerKernel_cases[of e dk' sig dbg X d f inferred])
  case signature_mismatch
  then show ?thesis using assms by simp
next
  case (schema_mismatch e1)
  then show ?thesis using assms check_cpp_signature_nonempty by simp
next
  case (inserted e1 T)
  have "kernel_lists_nonempty e1" using assms check_cpp_signature_nonempty[OF inserted(1)] by simp
  then have "kernel_lists_nonempty (snd (emplace_front_kernel e1 dk' f inferred dbg))"
    unfolding emplace_front_kernel_def Let_def snd_conv by (rule nonempty_update) simp
  then show ?thesis unfolding inserted(2) by simp
qed

lemma deregisterKernel_nonempty:
  assumes "kernel_lists_nonempty e"
  shows "kernel_lists_nonempty (snd (deregisterKernel_' X d e dk' it))"
proof -
  let ?dk = "case dk' of Some k \<Rightarrow> k | None \<Rightarrow> CompositeImplicitAutograd"
  show ?thesis
  proof (cases "map_of (kernels_' e) ?dk")
    case None
    then show ?thesis using assms by (simp add: deregisterKernel_'_def)
  next
    case (Some k)
    show ?thesis
    proof (cases "it \<in> fst ` set k")
      case False
      then show ?thesis using assms Some by (simp add: deregisterKernel_'_def)
    next
      case True
      let ?e1 = "e\<lparr>kernels_' := (if erase it k = [] then AList.delete ?dk (kernels_' e)
                                    else AList.update ?dk (erase it k) (kernels_' e))\<rparr>"
      have ne: "kernel_lists_nonempty ?e1"
        using nonempty_delete[OF assms] nonempty_update[OF assms] by (cases "erase it k = []") simp_all
      obtain T where "snd (updateDispatchTable_' X d ?e1 ?dk) = ?e1\<lparr>dispatchTable_' := T\<rparr>"
        using updateDispatchTable_frame by blast
      then have "kernel_lists_nonempty (snd (updateDispatchTable_' X d ?e1 ?dk))"
        using ne by (simp only: nonempty_table_update)
      then show ?thesis using True Some by (simp add: deregisterKernel_'_def Let_def)
    qed
  qed
qed

lemma perform_nonempty:
  assumes "kernel_lists_nonempty e"
  shows "kernel_lists_nonempty (perform X e c)"
proof (cases c)
  case (RegisterKernel d k f sig inferred dbg)
  then show ?thesis using registerKernel_nonempty[OF assms] by simp
next
  case (DeregisterKernel d k it)
  then show ?thesis using deregisterKernel_nonempty[OF assms] by simp
next
  case (UpdateFallback d k)
  obtain T where "snd (updateDispatchTable_' X d e k) = e\<lparr>dispatchTable_' := T\<rparr>"
    using updateDispatchTable_frame by blast
  then show ?thesis using assms UpdateFallback by (simp add: updateFallback_def)
next
  case (RegisterSchema sch dbg)
  then show ?thesis using assms
    by (auto simp: registerSchema_def kernel_lists_nonempty_def split: sum.splits)
next
  case DeregisterSchema
  then show ?thesis using assms by (simp add: deregisterSchema_def kernel_lists_nonempty_def)
qed

lemma perform_all_nonempty:
  "kernel_lists_nonempty e \<Longrightarrow> kernel_lists_nonempty (perform_all X e cs)"
  unfolding perform_all_def by (induction cs arbitrary: e) (simp_all add: perform_nonempty)

lemma fresh_entry_nonempty: "kernel_lists_nonempty (perform_all X (entry_with []) cs)"
  by (rule perform_all_nonempty) (simp add: kernel_lists_nonempty_def entry_with_def)


lemma registerKernel_no_Undefined:
  assumes "map_of (kernels_' e) Undefined = None" "dk' \<noteq> Some Undefined"
  shows "map_of (kernels_' (snd (registerKernel X d e dk' f sig inferred dbg))) Undefined = None"
proof (cases rule: registerKernel_cases[of e dk' sig dbg X d f inferred])
  case signature_mismatch
  then show ?thesis using assms by simp
next
  case (schema_mismatch e1)
  then show ?thesis using assms check_cpp_signature_keeps(1) by simp
next
  case (inserted e1 T)
  have "(case dk' of Some k \<Rightarrow> k | None \<Rightarrow> CompositeImplicitAutograd) \<noteq> Undefined"
    using assms(2) by (cases dk') auto
  then show ?thesis
    unfolding inserted(2) using assms(1) check_cpp_signature_keeps(1)[OF inserted(1)]
    by (simp add: emplace_front_kernel_def Let_def update_conv')
qed

lemma deregisterKernel_no_Undefined:
  assumes "map_of (kernels_' e) Undefined = None"
  shows "map_of (kernels_' (snd (deregisterKernel_' X d e dk' it))) Undefined = None"
proof -
  let ?dk = "case dk' of Some k \<Rightarrow> k | None \<Rightarrow> CompositeImplicitAutograd"
  show ?thesis
  proof (cases "map_of (kernels_' e) ?dk")
    case None
    then show ?thesis using assms by (simp add: deregisterKernel_'_def)
  next
    case (Some k)
    then have dk: "?dk \<noteq> Undefined" using assms by auto
    let ?e1 = "e\<lparr>kernels_' := (if erase it k = [] then AList.delete ?dk (kernels_' e)
                                  else AList.update ?dk (erase it k) (kernels_' e))\<rparr>"
    have m: "map_of (kernels_' ?e1) Undefined = None"
      using assms dk by (simp add: update_conv' delete_conv')
    obtain T where T: "snd (updateDispatchTable_' X d ?e1 ?dk) = ?e1\<lparr>dispatchTable_' := T\<rparr>"
      using updateDispatchTable_frame by blast
    have "map_of (kernels_' (snd (updateDispatchTable_' X d ?e1 ?dk))) Undefined = None"
      unfolding T using m by simp
    then show ?thesis using Some assms by (simp add: deregisterKernel_'_def Let_def)
  qed
qed

lemma perform_no_Undefined:
  assumes "map_of (kernels_' e) Undefined = None" "\<not> names_Undefined c"
  shows "map_of (kernels_' (perform X e c)) Undefined = None"
proof (cases c)
  case (RegisterKernel d k f sig inferred dbg)
  then show ?thesis using registerKernel_no_Undefined[OF assms(1)] assms(2)
    by (simp add: names_Undefined_def)
next
  case (DeregisterKernel d k it)
  then show ?thesis using deregisterKernel_no_Undefined[OF assms(1)] by simp
next
  case (UpdateFallback d k)
  obtain T where "snd (updateDispatchTable_' X d e k) = e\<lparr>dispatchTable_' := T\<rparr>"
    using updateDispatchTable_frame by blast
  then show ?thesis using assms UpdateFallback by (simp add: updateFallback_def)
next
  case (RegisterSchema sch dbg)
  then show ?thesis using assms by (auto simp: registerSchema_def split: sum.splits)
next
  case DeregisterSchema
  then show ?thesis using assms by (simp add: deregisterSchema_def)
qed

lemma kernel_map_invariant:
  assumes "\<forall>c\<in>set cs. \<not> names_Undefined c"
  shows "map_of (kernels_' (perform_all X (entry_with []) cs)) Undefined = None
       \<and> kernel_lists_nonempty (perform_all X (entry_with []) cs)"
proof -
  have "map_of (kernels_' e) Undefined = None \<Longrightarrow> \<forall>c\<in>set cs. \<not> names_Undefined c
        \<Longrightarrow> map_of (kernels_' (perform_all X e cs)) Undefined = None" for e
    unfolding perform_all_def
    by (induction cs arbitrary: e) (simp_all add: perform_no_Undefined)
  then show ?thesis using assms fresh_entry_nonempty by (simp add: entry_with_def)
qed

text \<open>
  C10 fails on the code. A freshly constructed entry accepts a registration whose key is
  given as \<open>CatchAll\<close>, that is \<open>Undefined\<close>: only the absent key is redirected to
  CompositeImplicitAutograd. The kernel map then holds a list under \<open>Undefined\<close>, and the
  entry's own assertions (\<open>checkInvariants\<close>, \<open>hasKernelForDispatchKey\<close>) fail.
\<close>

theorem undefined_key_registration:
  "OperatorEntry_new c10 no_fallbacks ''add'' = (Inr (), entry_with [])
   \<and> fst (registerKernel c10 no_fallbacks (entry_with []) (Some CatchAll) (user_kernel 1) None None
             ''K_catchall'') = Inr 0
   \<and> map_of (kernels_' (snd (registerKernel c10 no_fallbacks (entry_with []) (Some CatchAll)
                               (user_kernel 1) None None ''K_catchall''))) Undefined
       = Some [(0, annotated 1 ''K_catchall'')]
   \<and> checkInvariants c10 no_fallbacks
        (snd (registerKernel c10 no_fallbacks (entry_with []) (Some CatchAll) (user_kernel 1) None None
                ''K_catchall''))
       = Inl InternalAssert
   \<and> hasKernelForDispatchKey
        (snd (registerKernel c10 no_fallbacks (entry_with []) (Some CatchAll) (user_kernel 1) None None
                ''K_catchall'')) CPU
       = Inl InternalAssert"
  by (simp add: OperatorEntry_new_no_fallbacks)
     (simp add: update_simps compute_simps c10_simps run_simps checkInvariants_def)


section \<open>What a table update writes\<close>

lemma then_s_assoc: "then_s (then_s r f) g = then_s r (\<lambda>e. then_s (f e) g)"
  by (cases "fst r") (simp_all add: then_s_def)

lemma then_s_skip: "then_s (Inr (), e) f = f e"
  by (simp add: then_s_def)

lemma then_s_skip_right: "then_s r (Pair (Inr ())) = r"
  by (cases r, cases "fst r") (auto simp: then_s_def)

lemma update_entries_append:
  "update_entries X d e (a @ b) = then_s (update_entries X d e a) (\<lambda>e'. update_entries X d e' b)"
  by (induction a arbitrary: e) (simp_all add: then_s_skip then_s_assoc)

lemma update_entries_single:
  "update_entries X d e [k] = updateDispatchTableEntry_' X d e k"
  by (simp add: then_s_skip_right)

lemma updateDispatchTable_refreshed:
  "updateDispatchTable_' X d e k = update_entries X d e (refreshed_keys X k)"
proof (cases "k = Undefined")
  case True
  then show ?thesis
    by (simp add: updateDispatchTable_'_def refreshed_keys_def then_s_skip_right)
next
  case False
  then show ?thesis
    unfolding updateDispatchTable_'_def refreshed_keys_def
    by (simp add: update_entries_append update_entries_single then_s_skip then_s_skip_right)
qed

lemma wf_table_update [simp]: "entry_wellformed (e\<lparr>dispatchTable_' := T\<rparr>) = entry_wellformed e"
  by (simp add: entry_wellformed_def)

lemma compute_recomputed:
  "entry_wellformed e \<Longrightarrow> computeDispatchTableEntry X d e k = Inr (recomputed X d (kernels_' e) k)"
  by (simp add: compute_entry_rules recomputed_def)

lemma entry_update_wf:
  assumes "entry_wellformed e"
  shows "updateDispatchTableEntry_' X d e k =
     (Inr (), e\<lparr>dispatchTable_' := write_entries X d (kernels_' e) [k] (dispatchTable_' e)\<rparr>)"
  by (simp add: updateDispatchTableEntry_'_def Let_def compute_recomputed[OF assms])

lemma update_entries_wf:
  assumes "entry_wellformed e"
  shows "update_entries X d e keys =
     (Inr (), e\<lparr>dispatchTable_' := write_entries X d (kernels_' e) keys (dispatchTable_' e)\<rparr>)"
  using assms
proof (induction keys arbitrary: e)
  case Nil
  then show ?case by simp
next
  case (Cons k keys)
  let ?e' = "e\<lparr>dispatchTable_' := write_entries X d (kernels_' e) [k] (dispatchTable_' e)\<rparr>"
  have wf': "entry_wellformed ?e'" using Cons.prems by simp
  show ?case
    unfolding update_entries.simps entry_update_wf[OF Cons.prems] then_s_skip Cons.IH[OF wf']
    by simp
qed

lemma updateDispatchTable_wf:
  assumes "entry_wellformed e"
  shows "updateDispatchTable_' X d e k =
     (Inr (), e\<lparr>dispatchTable_' :=
                  write_entries X d (kernels_' e) (refreshed_keys X k) (dispatchTable_' e)\<rparr>)"
  unfolding updateDispatchTable_refreshed by (rule update_entries_wf[OF assms])

lemma write_entries_other:
  "i \<notin> getDispatchTableIndexForDispatchKey X ` set keys \<Longrightarrow> write_entries X d ks keys T i = T i"
  by (induction keys arbitrary: T) auto

lemma write_entries_append:
  "write_entries X d ks (a @ b) T = write_entries X d ks b (write_entries X d ks a T)"
  by (induction a arbitrary: T) auto

lemma write_entries_last:
  "getDispatchTableIndexForDispatchKey X k \<noteq> - 1 \<Longrightarrow>
   write_entries X d ks (keys @ [k]) T (getDispatchTableIndexForDispatchKey X k) = recomputed X d ks k"
  by (simp add: write_entries_append)

lemma write_entries_hit:
  assumes "k \<in> set keys" "getDispatchTableIndexForDispatchKey X k \<noteq> - 1"
    and "\<forall>k'\<in>set keys. getDispatchTableIndexForDispatchKey X k' = getDispatchTableIndexForDispatchKey X k
            \<longrightarrow> k' = k"
  shows "write_entries X d ks keys T (getDispatchTableIndexForDispatchKey X k) = recomputed X d ks k"
  using assms
proof (induction keys arbitrary: T)
  case Nil
  then show ?case by simp
next
  case (Cons a keys)
  show ?case
  proof (cases "k \<in> set keys")
    case True
    then show ?thesis using Cons by simp
  next
    case False
    then have a: "a = k" using Cons.prems(1) by simp
    have "getDispatchTableIndexForDispatchKey X k \<notin> getDispatchTableIndexForDispatchKey X ` set keys"
      using False Cons.prems(3) by auto
    then show ?thesis using a Cons.prems(2) by (simp add: write_entries_other)
  qed
qed

lemma check_table_wf:
  assumes "entry_wellformed e"
  shows "check_table X d e keys =
     (if \<exists>k\<in>set keys. getDispatchTableIndexForDispatchKey X k \<noteq> - 1
            \<and> \<not> equalsBoxedAndUnboxed (recomputed X d (kernels_' e) k)
                   (dispatchTable_' e (getDispatchTableIndexForDispatchKey X k))
      then Inl InternalAssert else Inr ())"
  by (induction keys) (auto simp: compute_recomputed[OF assms] bind_e_def Let_def)



section \<open>The incremental update misses a slot\<close>

lemma registerKernel_wf:
  assumes "entry_wellformed (snd (emplace_front_kernel e (Some k) f None dbg))"
  shows "registerKernel X d e (Some k) f None None dbg =
     (Inr (fst (emplace_front_kernel e (Some k) f None dbg)),
      (snd (emplace_front_kernel e (Some k) f None dbg))
        \<lparr>dispatchTable_' := write_entries X d
            (kernels_' (snd (emplace_front_kernel e (Some k) f None dbg)))
            (refreshed_keys X k)
            (dispatchTable_' (snd (emplace_front_kernel e (Some k) f None dbg)))\<rparr>)"
  by (simp add: registerKernel_def check_cpp_signature_def check_inferred_schema_None
        updateDispatchTable_wf[OF assms] Let_def)

lemma recomputed_math:
  assumes "isIncludedInAlias X AutogradCPU CompositeImplicitAutograd"
  shows "recomputed X no_fallbacks (kernels_math M) AutogradCPU = M"
  using assms by (simp add: recomputed_def rule_simps isAliasDispatchKey_def kernels_math_def annotate_def)

lemma recomputed_math_explicit:
  assumes "\<not> isIncludedInAlias X AutogradCPU CompositeExplicitAutograd"
  shows "recomputed X no_fallbacks (kernels_math_explicit M E) AutogradCPU = KernelFunction_default"
  using assms by (simp add: recomputed_def rule_simps run_simps kernels_math_explicit_def annotate_def)

lemma wf_kernels_math: "isValid M \<Longrightarrow> entry_wellformed (e\<lparr>kernels_' := kernels_math M\<rparr>)"
  by (simp add: entry_wellformed_def kernels_math_def annotate_def)

lemma wf_kernels_math_explicit:
  "isValid M \<Longrightarrow> isValid E \<Longrightarrow> entry_wellformed (e\<lparr>kernels_' := kernels_math_explicit M E\<rparr>)"
  by (simp add: entry_wellformed_def kernels_math_explicit_def annotate_def)

lemma register_math_eq:
  assumes "isValid M"
  shows "register_math X M =
    (Inr 0, (entry_with [])
       \<lparr>kernels_' := kernels_math M,
        dispatchTable_' := write_entries X no_fallbacks (kernels_math M)
           (refreshed_keys X CompositeImplicitAutograd) (\<lambda>_. KernelFunction_default)\<rparr>)"
proof -
  have e: "emplace_front_kernel (entry_with []) (Some CompositeImplicitAutograd) M None ''K_math''
     = (0, (entry_with [])\<lparr>kernels_' := kernels_math M\<rparr>)"
    by (simp add: emplace_front_kernel_def entry_with_def kernels_math_def annotate_def)
  have wf: "entry_wellformed (snd (emplace_front_kernel (entry_with []) (Some CompositeImplicitAutograd) M None ''K_math''))"
    unfolding e using wf_kernels_math[OF assms] by simp
  show ?thesis
    unfolding register_math_def registerKernel_wf[OF wf] e by (simp add: entry_with_def)
qed

lemma register_explicit_eq:
  assumes "isValid M" "isValid E"
  shows "register_explicit X M E =
    (Inr 0, (entry_with [])
       \<lparr>kernels_' := kernels_math_explicit M E,
        dispatchTable_' := write_entries X no_fallbacks (kernels_math_explicit M E)
           (refreshed_keys X CompositeExplicitAutograd)
           (write_entries X no_fallbacks (kernels_math M)
              (refreshed_keys X CompositeImplicitAutograd) (\<lambda>_. KernelFunction_default))\<rparr>)"
proof -
  let ?e1 = "snd (register_math X M)"
  have e: "emplace_front_kernel ?e1 (Some CompositeExplicitAutograd) E None ''K_explicit''
     = (0, ?e1\<lparr>kernels_' := kernels_math_explicit M E\<rparr>)"
    unfolding register_math_eq[OF assms(1)]
    by (simp add: emplace_front_kernel_def kernels_math_def kernels_math_explicit_def annotate_def)
  have wf: "entry_wellformed (snd (emplace_front_kernel ?e1 (Some CompositeExplicitAutograd) E None ''K_explicit''))"
    unfolding e using wf_kernels_math_explicit[OF assms] by simp
  show ?thesis
    unfolding register_explicit_def registerKernel_wf[OF wf] e
    by (simp add: register_math_eq[OF assms(1)])
qed

lemma invalid_default: "isValid M \<Longrightarrow> \<not> equalsBoxedAndUnboxed KernelFunction_default M"
  by (auto simp: isValid_def equalsBoxedAndUnboxed_def KernelFunction_default_def)

lemma stale_slot:
  assumes valid: "isValid M" "isValid E"
    and refreshed: "AutogradCPU \<in> set (refreshed_keys X CompositeImplicitAutograd)"
    and in_alias: "isIncludedInAlias X AutogradCPU CompositeImplicitAutograd"
    and slot: "getDispatchTableIndexForDispatchKey X AutogradCPU \<noteq> - 1"
    and own_slot: "\<forall>k\<in>set (refreshed_keys X CompositeImplicitAutograd).
         getDispatchTableIndexForDispatchKey X k = getDispatchTableIndexForDispatchKey X AutogradCPU
           \<longrightarrow> k = AutogradCPU"
    and not_refreshed: "getDispatchTableIndexForDispatchKey X AutogradCPU
         \<notin> getDispatchTableIndexForDispatchKey X ` set (refreshed_keys X CompositeExplicitAutograd)"
  shows "dispatchTable_' (snd (register_explicit X M E)) (getDispatchTableIndexForDispatchKey X AutogradCPU) = M"
  unfolding register_explicit_eq[OF valid]
  by (simp add: write_entries_other[OF not_refreshed]
        write_entries_hit[OF refreshed slot own_slot] recomputed_math[OF in_alias])

lemma c10_index: "getDispatchTableIndexForDispatchKey c10 k = uint k"
  by (simp add: c10_def c10_getDispatchTableIndexForDispatchKey_def)


lemma c10_stale_facts:
  "AutogradCPU \<in> set (refreshed_keys c10 CompositeImplicitAutograd)"
  "isIncludedInAlias c10 AutogradCPU CompositeImplicitAutograd"
  "\<not> isIncludedInAlias c10 AutogradCPU CompositeExplicitAutograd"
  "getDispatchTableIndexForDispatchKey c10 AutogradCPU \<noteq> - 1"
  "getDispatchTableIndexForDispatchKey c10 AutogradCPU
     \<notin> getDispatchTableIndexForDispatchKey c10 ` set (refreshed_keys c10 CompositeExplicitAutograd)"
  "AutogradCPU \<in> set (runtime_keys (FULL c10))"
  "isBackendDispatchKey c10 CPU"
  "getAutogradKeyFromBackend c10 (toBackendComponent CPU) = AutogradCPU"
  by code_simp+

lemma c10_own_slot:
  "\<forall>k\<in>set (refreshed_keys c10 CompositeImplicitAutograd).
     getDispatchTableIndexForDispatchKey c10 k = getDispatchTableIndexForDispatchKey c10 AutogradCPU
       \<longrightarrow> k = AutogradCPU"
  unfolding c10_index by (simp add: word_uint_eq_iff)

text \<open>
  C2 fails on the code. Let the key sets be such that AutogradCPU is a runtime key of
  CompositeImplicitAutograd with a table slot of its own, and is not a key of
  CompositeExplicitAutograd, whose table update therefore does not write that slot (the
  comments 2.2 and 2.3 of \<open>computeDispatchTableEntryWithDebug\<close>). On a fresh entry, register
  a kernel \<open>M\<close> to CompositeImplicitAutograd and then a kernel \<open>E\<close> to
  CompositeExplicitAutograd. Both calls succeed; the live slot of AutogradCPU still holds
  \<open>M\<close>, while \<open>computeDispatchTableEntry\<close> now yields the missing kernel for AutogradCPU
  (the explicit kernel makes rule 4 skip \<open>M\<close>); \<open>checkInvariants\<close> fails on this entry.
\<close>

theorem stale_slot_after_explicit:
  assumes valid: "isValid M" "isValid E"
    and refreshed: "AutogradCPU \<in> set (refreshed_keys X CompositeImplicitAutograd)"
    and in_alias: "isIncludedInAlias X AutogradCPU CompositeImplicitAutograd"
    and not_alias: "\<not> isIncludedInAlias X AutogradCPU CompositeExplicitAutograd"
    and slot: "getDispatchTableIndexForDispatchKey X AutogradCPU \<noteq> - 1"
    and own_slot: "\<forall>k\<in>set (refreshed_keys X CompositeImplicitAutograd).
         getDispatchTableIndexForDispatchKey X k = getDispatchTableIndexForDispatchKey X AutogradCPU
           \<longrightarrow> k = AutogradCPU"
    and not_refreshed: "getDispatchTableIndexForDispatchKey X AutogradCPU
         \<notin> getDispatchTableIndexForDispatchKey X ` set (refreshed_keys X CompositeExplicitAutograd)"
    and runtime: "AutogradCPU \<in> set (runtime_keys (FULL X))"
  shows "fst (register_math X M) = Inr 0
       \<and> fst (register_explicit X M E) = Inr 0
       \<and> dispatchTable_' (snd (register_explicit X M E)) (getDispatchTableIndexForDispatchKey X AutogradCPU) = M
       \<and> computeDispatchTableEntry X no_fallbacks (snd (register_explicit X M E)) AutogradCPU
           = Inr KernelFunction_default
       \<and> \<not> equalsBoxedAndUnboxed KernelFunction_default M
       \<and> checkInvariants X no_fallbacks (snd (register_explicit X M E)) = Inl InternalAssert"
proof -
  let ?e2 = "snd (register_explicit X M E)"
  have ks: "kernels_' ?e2 = kernels_math_explicit M E"
    unfolding register_explicit_eq[OF valid] by simp
  have wf: "entry_wellformed ?e2"
    unfolding register_explicit_eq[OF valid] using wf_kernels_math_explicit[OF valid] by simp
  have stale: "dispatchTable_' ?e2 (getDispatchTableIndexForDispatchKey X AutogradCPU) = M"
    by (rule stale_slot[OF valid refreshed in_alias slot own_slot not_refreshed])
  have fresh: "recomputed X no_fallbacks (kernels_' ?e2) AutogradCPU = KernelFunction_default"
    unfolding ks by (rule recomputed_math_explicit[OF not_alias])
  have comp: "computeDispatchTableEntry X no_fallbacks ?e2 AutogradCPU = Inr KernelFunction_default"
    unfolding compute_recomputed[OF wf] fresh by simp
  have pre: "schema_' ?e2 = None" "map_of (kernels_' ?e2) Undefined = None"
    "\<not> list_ex (\<lambda>kv. \<not> 0 < length (snd kv)) (kernels_' ?e2)"
    unfolding register_explicit_eq[OF valid]
    by (simp_all add: entry_with_def kernels_math_explicit_def)
  have "\<exists>k\<in>set (runtime_keys (FULL X)). getDispatchTableIndexForDispatchKey X k \<noteq> - 1
            \<and> \<not> equalsBoxedAndUnboxed (recomputed X no_fallbacks (kernels_' ?e2) k)
                   (dispatchTable_' ?e2 (getDispatchTableIndexForDispatchKey X k))"
    using runtime slot fresh stale invalid_default[OF valid(1)] by (intro bexI[of _ AutogradCPU]) simp_all
  then have chk: "checkInvariants X no_fallbacks ?e2 = Inl InternalAssert"
    unfolding checkInvariants_def check_table_wf[OF wf] using pre by simp
  show ?thesis
    using stale comp chk invalid_default[OF valid(1)]
    by (simp add: register_math_eq[OF valid(1)] register_explicit_eq[OF valid])
qed




theorem stale_slot_after_explicit_witness:
  "OperatorEntry_new c10 no_fallbacks ''add'' = (Inr (), entry_with [])
   \<and> isValid (user_kernel 1) \<and> isValid (user_kernel 2)
   \<and> fst (register_math c10 (user_kernel 1)) = Inr 0
   \<and> fst (register_explicit c10 (user_kernel 1) (user_kernel 2)) = Inr 0
   \<and> dispatchTable_' (snd (register_explicit c10 (user_kernel 1) (user_kernel 2)))
        (getDispatchTableIndexForDispatchKey c10 AutogradCPU) = user_kernel 1
   \<and> computeDispatchTableEntry c10 no_fallbacks
        (snd (register_explicit c10 (user_kernel 1) (user_kernel 2))) AutogradCPU
       = Inr KernelFunction_default
   \<and> checkInvariants c10 no_fallbacks (snd (register_explicit c10 (user_kernel 1) (user_kernel 2)))
       = Inl InternalAssert"
proof -
  have v: "isValid (user_kernel 1)" "isValid (user_kernel 2)" by (simp_all add: run_simps)
  show ?thesis
    using stale_slot_after_explicit[OF v c10_stale_facts(1,2,3,4) c10_own_slot c10_stale_facts(5,6)]
      v OperatorEntry_new_no_fallbacks[of c10]
    by simp
qed

section \<open>A round trip that does not restore the table\<close>

lemma wf_kernels_math_explicit_cpu:
  "isValid M \<Longrightarrow> isValid E \<Longrightarrow> isValid B
   \<Longrightarrow> entry_wellformed (e\<lparr>kernels_' := kernels_math_explicit_cpu M E B\<rparr>)"
  by (simp add: entry_wellformed_def kernels_math_explicit_cpu_def annotate_def)

lemma register_cpu_eq:
  assumes "isValid M" "isValid E" "isValid B"
  shows "register_cpu X M E B =
    (Inr 0, (snd (register_explicit X M E))
       \<lparr>kernels_' := kernels_math_explicit_cpu M E B,
        dispatchTable_' := write_entries X no_fallbacks (kernels_math_explicit_cpu M E B)
           (refreshed_keys X CPU) (dispatchTable_' (snd (register_explicit X M E)))\<rparr>)"
proof -
  let ?e2 = "snd (register_explicit X M E)"
  have ks: "kernels_' ?e2 = kernels_math_explicit M E"
    unfolding register_explicit_eq[OF assms(1,2)] by simp
  have e: "emplace_front_kernel ?e2 (Some CPU) B None ''K_cpu''
     = (0, ?e2\<lparr>kernels_' := kernels_math_explicit_cpu M E B\<rparr>)"
    by (simp add: emplace_front_kernel_def ks kernels_math_explicit_def kernels_math_explicit_cpu_def
          annotate_def)
  have wf: "entry_wellformed (snd (emplace_front_kernel ?e2 (Some CPU) B None ''K_cpu''))"
    unfolding e using wf_kernels_math_explicit_cpu[OF assms] by simp
  show ?thesis
    unfolding register_cpu_def registerKernel_wf[OF wf] e by simp
qed

lemma deregister_cpu_eq:
  assumes "isValid M" "isValid E" "isValid B"
  shows "deregister_cpu X M E B =
    (Inr (), (snd (register_cpu X M E B))
       \<lparr>kernels_' := kernels_math_explicit M E,
        dispatchTable_' := write_entries X no_fallbacks (kernels_math_explicit M E)
           (refreshed_keys X CPU) (dispatchTable_' (snd (register_cpu X M E B)))\<rparr>)"
proof -
  let ?e3 = "snd (register_cpu X M E B)"
  have ks: "kernels_' ?e3 = kernels_math_explicit_cpu M E B"
    unfolding register_cpu_eq[OF assms] by simp
  have tok: "fst (register_cpu X M E B) = Inr 0"
    unfolding register_cpu_eq[OF assms] by simp
  let ?e4 = "?e3\<lparr>kernels_' := kernels_math_explicit M E\<rparr>"
  have d: "deregisterKernel_' X no_fallbacks ?e3 (Some CPU) 0
         = updateDispatchTable_' X no_fallbacks ?e4 CPU"
    by (simp add: deregisterKernel_'_def ks kernels_math_explicit_cpu_def kernels_math_explicit_def)
  have wf: "entry_wellformed ?e4" using wf_kernels_math_explicit[OF assms(1,2)] by simp
  show ?thesis
    unfolding deregister_cpu_def tok using d updateDispatchTable_wf[OF wf, of X no_fallbacks CPU]
    by simp
qed

lemma refreshed_keys_backend:
  assumes "isBackendDispatchKey X CPU"
    "getAutogradKeyFromBackend X (toBackendComponent CPU) = AutogradCPU"
  shows "refreshed_keys X CPU = runtime_keys (getRuntimeDispatchKeySet X CPU) @ [AutogradCPU]"
  using assms by (simp add: refreshed_keys_def)

text \<open>
  C6 fails on the code, by the defect of C2. In the entry left by the two registrations
  above, the slot of AutogradCPU holds \<open>M\<close>. Registering a kernel \<open>B\<close> to CPU and
  deregistering it at once with the returned iterator restores the kernel map, but both
  calls write the slot of AutogradCPU (the autograd key of the backend of CPU), so after the
  round trip the slot holds the missing kernel: the table differs from the table before the
  registration.
\<close>

theorem round_trip_changes_slot:
  assumes valid: "isValid M" "isValid E" "isValid B"
    and refreshed: "AutogradCPU \<in> set (refreshed_keys X CompositeImplicitAutograd)"
    and in_alias: "isIncludedInAlias X AutogradCPU CompositeImplicitAutograd"
    and not_alias: "\<not> isIncludedInAlias X AutogradCPU CompositeExplicitAutograd"
    and slot: "getDispatchTableIndexForDispatchKey X AutogradCPU \<noteq> - 1"
    and own_slot: "\<forall>k\<in>set (refreshed_keys X CompositeImplicitAutograd).
         getDispatchTableIndexForDispatchKey X k = getDispatchTableIndexForDispatchKey X AutogradCPU
           \<longrightarrow> k = AutogradCPU"
    and not_refreshed: "getDispatchTableIndexForDispatchKey X AutogradCPU
         \<notin> getDispatchTableIndexForDispatchKey X ` set (refreshed_keys X CompositeExplicitAutograd)"
    and backend_key: "isBackendDispatchKey X CPU"
    and autograd_key: "getAutogradKeyFromBackend X (toBackendComponent CPU) = AutogradCPU"
  shows "fst (register_cpu X M E B) = Inr 0
       \<and> fst (deregister_cpu X M E B) = Inr ()
       \<and> kernels_' (snd (deregister_cpu X M E B)) = kernels_' (snd (register_explicit X M E))
       \<and> dispatchTable_' (snd (register_explicit X M E)) (getDispatchTableIndexForDispatchKey X AutogradCPU) = M
       \<and> dispatchTable_' (snd (deregister_cpu X M E B)) (getDispatchTableIndexForDispatchKey X AutogradCPU)
           = KernelFunction_default
       \<and> M \<noteq> KernelFunction_default"
proof -
  have before: "dispatchTable_' (snd (register_explicit X M E))
                  (getDispatchTableIndexForDispatchKey X AutogradCPU) = M"
    by (rule stale_slot[OF valid(1,2) refreshed in_alias slot own_slot not_refreshed])
  have after: "dispatchTable_' (snd (deregister_cpu X M E B))
                  (getDispatchTableIndexForDispatchKey X AutogradCPU) = KernelFunction_default"
    unfolding deregister_cpu_eq[OF valid] refreshed_keys_backend[OF backend_key autograd_key]
    by (simp add: write_entries_last[OF slot] recomputed_math_explicit[OF not_alias])
  have ks: "kernels_' (snd (deregister_cpu X M E B)) = kernels_' (snd (register_explicit X M E))"
    unfolding deregister_cpu_eq[OF valid] register_explicit_eq[OF valid(1,2)] by simp
  have ne: "M \<noteq> KernelFunction_default"
    using valid(1) by (auto simp: isValid_def KernelFunction_default_def)
  show ?thesis
    using before after ks ne by (simp add: register_cpu_eq[OF valid] deregister_cpu_eq[OF valid])
qed


theorem round_trip_changes_slot_witness:
  "isValid (user_kernel 1) \<and> isValid (user_kernel 2) \<and> isValid (user_kernel 3)
   \<and> fst (register_cpu c10 (user_kernel 1) (user_kernel 2) (user_kernel 3)) = Inr 0
   \<and> fst (deregister_cpu c10 (user_kernel 1) (user_kernel 2) (user_kernel 3)) = Inr ()
   \<and> dispatchTable_' (snd (register_explicit c10 (user_kernel 1) (user_kernel 2)))
        (getDispatchTableIndexForDispatchKey c10 AutogradCPU) = user_kernel 1
   \<and> dispatchTable_' (snd (deregister_cpu c10 (user_kernel 1) (user_kernel 2) (user_kernel 3)))
        (getDispatchTableIndexForDispatchKey c10 AutogradCPU) = KernelFunction_default
   \<and> user_kernel 1 \<noteq> KernelFunction_default"
proof -
  have v: "isValid (user_kernel 1)" "isValid (user_kernel 2)" "isValid (user_kernel 3)"
    by (simp_all add: run_simps)
  show ?thesis
    using round_trip_changes_slot[OF v c10_stale_facts(1,2,3,4) c10_own_slot c10_stale_facts(5,7,8)] v
    by simp
qed

section \<open>Registrations that succeed\<close>







section \<open>The ambiguous AutogradOther entry\<close>




section \<open>Skipping the implicit composite kernel\<close>




end
